theory Spec2Isabelle
  imports Main "HOL-Library.Word" "HOL-Library.AList"
begin

unbundle bit_operations_syntax

section \<open>Bytes and little-endian integers\<close>

text \<open>
  A Go \<open>[]byte\<close> is a list of 8-bit words; a Go \<open>string\<close> is an immutable byte
  sequence and \<open>len\<close> counts its bytes, so the subjects that are framed into a
  replicated message are byte lists as well. \<open>uint64\<close> is \<open>64 word\<close>, \<open>int64\<close>
  is its two's complement bit pattern, also a \<open>64 word\<close>, whose value is read
  with \<open>sint\<close>; the conversions \<open>int64(x)\<close> and \<open>uint64(x)\<close> keep the bit
  pattern, so they are the identity on the model.
\<close>

type_synonym byte = "8 word"
type_synonym bytes = "byte list"
type_synonym uint16 = "16 word"
type_synonym uint32 = "32 word"
type_synonym uint64 = "64 word"
type_synonym int64 = "64 word"

text \<open>
  \<open>binary.LittleEndian.PutUintN\<close> writes the N/8 bytes of a value, lowest byte
  first; \<open>binary.LittleEndian.UintN\<close> reads them back. \<open>putLE n w\<close> is the list
  of the \<open>n\<close> low bytes of \<open>w\<close>, \<open>getLE bs\<close> the value of the bytes \<open>bs\<close>.
\<close>

fun putLE :: "nat \<Rightarrow> 'a::len word \<Rightarrow> bytes" where
  "putLE 0 w = []"
| "putLE (Suc n) w = ucast w # putLE n (drop_bit 8 w)"

fun getLE :: "bytes \<Rightarrow> 'a::len word" where
  "getLE [] = 0"
| "getLE (b # bs) = ucast b OR push_bit 8 (getLE bs)"

definition PutUint16 :: "uint16 \<Rightarrow> bytes" where
  "PutUint16 v = putLE 2 v"

definition PutUint32 :: "uint32 \<Rightarrow> bytes" where
  "PutUint32 v = putLE 4 v"

definition PutUint64 :: "uint64 \<Rightarrow> bytes" where
  "PutUint64 v = putLE 8 v"

definition Uint16 :: "bytes \<Rightarrow> uint16" where
  "Uint16 b = getLE (take 2 b)"

definition Uint32 :: "bytes \<Rightarrow> uint32" where
  "Uint32 b = getLE (take 4 b)"

definition Uint64 :: "bytes \<Rightarrow> uint64" where
  "Uint64 b = getLE (take 8 b)"

section \<open>The replicated stream message frame\<close>

text \<open>
  The error values of this file. \<open>errDecode\<close> stands for any error returned by
  the libraries \<open>encoding/json\<close> and \<open>s2\<close>; \<open>errPropose\<close> for an error returned
  by the consensus node's \<open>Propose\<close>, with its text.
\<close>

datatype error =
    errBadStreamMsg | errDecode | errPropose string | ErrStoreEOF | ErrStoreMsgNotFound

definition streamMsgOp :: byte where
  "streamMsgOp = 4"

text \<open>
  \<open>encodeStreamMsg\<close> allocates \<open>elen\<close> bytes and fills them from index 0 to
  \<open>wi\<close>, which ends equal to \<open>elen\<close>; the buffer it returns is the concatenation
  of the pieces written. The lengths are truncated by the conversions
  \<open>uint16(len(subject))\<close> and \<open>uint32(len(msg))\<close>.
\<close>

definition encodeStreamMsg ::
  "bytes \<Rightarrow> bytes \<Rightarrow> bytes \<Rightarrow> bytes \<Rightarrow> uint64 \<Rightarrow> int64 \<Rightarrow> bytes" where
  "encodeStreamMsg subject reply hdr msg lseq ts =
     streamMsgOp # PutUint64 lseq @ PutUint64 ts
       @ PutUint16 (of_nat (length subject)) @ subject
       @ PutUint16 (of_nat (length reply)) @ reply
       @ PutUint16 (of_nat (length hdr)) @ hdr
       @ PutUint32 (of_nat (length msg)) @ msg"

text \<open>
  \<open>decodeStreamMsg\<close> walks the buffer, re-slicing it after every field. Each read
  of a length field is preceded by a check that the bytes are there, so no read is out
  of range; \<open>int(le.Uint16(buf))\<close> and \<open>int(le.Uint32(buf))\<close> are non-negative
  (\<open>int\<close> has 64 bits).
\<close>

definition decodeStreamMsg ::
  "bytes \<Rightarrow> error + (bytes \<times> bytes \<times> bytes \<times> bytes \<times> uint64 \<times> int64)" where
  "decodeStreamMsg buf0 =
     (if length buf0 < 26 then Inl errBadStreamMsg
      else
        let lseq = Uint64 buf0;
            buf1 = drop 8 buf0;
            ts = Uint64 buf1;
            buf2 = drop 8 buf1;
            sl = unat (Uint16 buf2);
            buf3 = drop 2 buf2
        in if length buf3 < sl then Inl errBadStreamMsg
        else
          let subject = take sl buf3;
              buf4 = drop sl buf3
          in if length buf4 < 2 then Inl errBadStreamMsg
          else
            let rl = unat (Uint16 buf4);
                buf5 = drop 2 buf4
            in if length buf5 < rl then Inl errBadStreamMsg
            else
              let reply = take rl buf5;
                  buf6 = drop rl buf5
              in if length buf6 < 2 then Inl errBadStreamMsg
              else
                let hl = unat (Uint16 buf6);
                    buf7 = drop 2 buf6
                in if length buf7 < hl then Inl errBadStreamMsg
                else
                  let hdr = take hl buf7;
                      buf8 = drop hl buf7
                  in if length buf8 < 4 then Inl errBadStreamMsg
                  else
                    let ml = unat (Uint32 buf8);
                        buf9 = drop 4 buf8
                    in if length buf9 < ml then Inl errBadStreamMsg
                    else Inr (subject, reply, hdr, take ml buf9, lseq, ts))"

section \<open>The meta controller's data\<close>

text \<open>
  Go pointers that the code dereferences are options: \<open>None\<close> is \<open>nil\<close>, and a
  dereference of \<open>nil\<close> is a panic, which the model returns as a value. Field names
  that several Go structs share carry the struct's initials. The internal fields
  \<open>responded\<close> and \<open>err\<close> of the assignments are written only by the create and
  leader-change paths, which are not part of the model, and are left out; so are the
  fields of the configurations that this file never reads. The \<open>fmt.Printf\<close>
  debugging output is not modelled.
\<close>

datatype panic = NilDereference | IndexOutOfRange | SliceOutOfRange | UnknownMetaEntryOp

fun andThen :: "panic + 'a \<Rightarrow> ('a \<Rightarrow> panic + 'b) \<Rightarrow> panic + 'b" where
  "andThen (Inl p) f = Inl p"
| "andThen (Inr x) f = f x"

text \<open>A \<open>for ... range\<close> loop whose body may panic: the panic ends the loop.\<close>

fun forEach :: "('s \<Rightarrow> 'a \<Rightarrow> panic + 's) \<Rightarrow> 'a list \<Rightarrow> 's \<Rightarrow> panic + 's" where
  "forEach body [] s = Inr s"
| "forEach body (x # xs) s = andThen (body s x) (forEach body xs)"

datatype StorageType = MemoryStorage | FileStorage

record ClientInfo =
  Account :: string

record StreamConfig =
  cfg_Name :: string
  cfg_Replicas :: int
  cfg_Storage :: StorageType

record ConsumerConfig =
  Durable :: string

record Peer =
  peer_ID :: string

text \<open>
  \<open>RaftNode\<close> is an interface of the consensus layer. A value of the model holds what
  the calls \<open>ID()\<close>, \<open>Leader()\<close> and \<open>Peers()\<close> answer at the time of the call.
\<close>

record RaftNode =
  ID :: string
  Leader :: bool
  Peers :: "Peer list"

record raftGroup =
  rg_Name :: string
  rg_Peers :: "string list"
  rg_Storage :: StorageType
  rg_Preferred :: string
  rg_node :: "RaftNode option"

record consumerAssignment =
  ca_Client :: "ClientInfo option"
  ca_Name :: string
  ca_Stream :: string
  ca_Config :: "ConsumerConfig option"
  ca_Group :: "raftGroup option"
  ca_Reply :: string

text \<open>
  A Go map is an association list with distinct keys: \<open>map_of\<close> reads it,
  \<open>AList.update\<close> is \<open>m[k] = v\<close> and \<open>AList.delete\<close> is \<open>delete(m, k)\<close>. A
  \<open>range\<close> over the map visits the entries in the order of the list; Go leaves that
  order unspecified.
\<close>

type_synonym ('k, 'v) gomap = "('k \<times> 'v) list"

record streamAssignment =
  sa_Client :: "ClientInfo option"
  sa_Config :: "StreamConfig option"
  sa_Group :: "raftGroup option"
  sa_Sync :: string
  sa_Reply :: string
  sa_consumers :: "(string, consumerAssignment) gomap"

record writeableStreamAssignment =
  wsa_Client :: "ClientInfo option"
  wsa_Config :: "StreamConfig option"
  wsa_Group :: "raftGroup option"
  wsa_Sync :: string
  wsa_Consumers :: "consumerAssignment option list"

record Account =
  acc_Name :: string

text \<open>
  The server's account registry and its routes are not in the source tree. The server
  carries \<open>LookupAccount\<close> as a function (\<open>None\<close> when it returns an error) and
  \<open>getRouteByHash\<close> as a predicate (true when the route it returns is not \<open>nil\<close>).
\<close>

record Server =
  LookupAccount :: "string \<Rightarrow> Account option"
  getRouteByHash :: "string \<Rightarrow> bool"

type_synonym assignments = "(string, (string, streamAssignment) gomap) gomap"

record jetStreamCluster =
  meta :: RaftNode
  streams :: assignments
  cc_s :: Server

text \<open>
  What the meta controller asks of the rest of the server is recorded, in order, in
  the field \<open>effects\<close>, which the Go struct does not have: a line written by
  \<open>Errorf\<close>, and the calls of \<open>processClusterCreateStream\<close>,
  \<open>processClusterDeleteStream\<close>, \<open>processClusterCreateConsumer\<close> and
  \<open>processClusterDeleteConsumer\<close>. These four create or delete the stream or
  consumer in the account and start its replication group, through code that is not in
  the source tree; they do not touch the keys of the assignment map and are not
  interpreted further. The node handle \<open>rg.node\<close>, which the create path installs,
  is part of the state the model is given.
\<close>

datatype effect =
    LogError string
  | ClusterCreateStream streamAssignment
  | ClusterDeleteStream streamAssignment bool
  | ClusterCreateConsumer consumerAssignment
  | ClusterDeleteConsumer consumerAssignment bool

record jetStream =
  srv :: "Server option"
  cluster :: "jetStreamCluster option"
  effects :: "effect list"

definition emit :: "effect \<Rightarrow> jetStream \<Rightarrow> jetStream" where
  "emit e js = js\<lparr>effects := effects js @ [e]\<rparr>"

definition processClusterCreateStream :: "jetStream \<Rightarrow> streamAssignment \<Rightarrow> jetStream" where
  "processClusterCreateStream js sa = emit (ClusterCreateStream sa) js"

definition processClusterDeleteStream ::
  "jetStream \<Rightarrow> streamAssignment \<Rightarrow> bool \<Rightarrow> jetStream" where
  "processClusterDeleteStream js sa wasLeader = emit (ClusterDeleteStream sa wasLeader) js"

definition processClusterCreateConsumer ::
  "jetStream \<Rightarrow> consumerAssignment \<Rightarrow> jetStream" where
  "processClusterCreateConsumer js ca = emit (ClusterCreateConsumer ca) js"

definition processClusterDeleteConsumer ::
  "jetStream \<Rightarrow> consumerAssignment \<Rightarrow> bool \<Rightarrow> jetStream" where
  "processClusterDeleteConsumer js ca wasLeader = emit (ClusterDeleteConsumer ca wasLeader) js"


section \<open>Membership and leadership predicates\<close>

definition isMember :: "raftGroup option \<Rightarrow> string \<Rightarrow> bool" where
  "isMember rg ident = (case rg of None \<Rightarrow> False | Some g \<Rightarrow> ident \<in> set (rg_Peers g))"

text \<open>
  The loop \<open>for _, peer := range rg.Peers\<close> of \<open>isStreamLeader\<close> and
  \<open>isConsumerLeader\<close>. \<open>Inr True\<close> is the \<open>return true\<close> inside the loop,
  \<open>Inr False\<close> means that the loop ran to its end. \<open>rg.node.Leader()\<close> on a
  \<open>nil\<close> node panics; it is evaluated only when the group has more than one peer.
\<close>

fun leaderAmong :: "string \<Rightarrow> raftGroup \<Rightarrow> string list \<Rightarrow> panic + bool" where
  "leaderAmong ourID rg [] = Inr False"
| "leaderAmong ourID rg (peer # peers) =
     (if peer = ourID then
        (if length (rg_Peers rg) = 1 then Inr True
         else case rg_node rg of
                None \<Rightarrow> Inl NilDereference
              | Some n \<Rightarrow> if Leader n then Inr True else leaderAmong ourID rg peers)
      else leaderAmong ourID rg peers)"

definition lookupAssignment :: "assignments \<Rightarrow> string \<Rightarrow> string \<Rightarrow> streamAssignment option" where
  "lookupAssignment m account stream =
     (case map_of m account of None \<Rightarrow> None | Some as \<Rightarrow> map_of as stream)"

text \<open>The method \<open>js.streamAssignment\<close>; it dereferences \<open>js.cluster\<close>.\<close>

definition streamAssignmentOf :: "jetStream \<Rightarrow> string \<Rightarrow> string \<Rightarrow> panic + streamAssignment option" where
  "streamAssignmentOf js account stream =
     (case cluster js of
        None \<Rightarrow> Inl NilDereference
      | Some cc \<Rightarrow> Inr (lookupAssignment (streams cc) account stream))"

definition isStreamLeader :: "jetStreamCluster option \<Rightarrow> string \<Rightarrow> string \<Rightarrow> panic + bool" where
  "isStreamLeader cco account stream =
     (case cco of
        None \<Rightarrow> Inr True
      | Some cc \<Rightarrow>
          (case lookupAssignment (streams cc) account stream of
             None \<Rightarrow> Inr False
           | Some sa \<Rightarrow>
               (case sa_Group sa of
                  None \<Rightarrow> Inr False
                | Some rg \<Rightarrow> leaderAmong (ID (meta cc)) rg (rg_Peers rg))))"

text \<open>
  The loop \<open>for _, ca := range sa.consumers\<close> of \<open>isConsumerLeader\<close>:
  \<open>ca.Group\<close> is dereferenced without a check.
\<close>

fun consumersLeader :: "string \<Rightarrow> (string \<times> consumerAssignment) list \<Rightarrow> panic + bool" where
  "consumersLeader ourID [] = Inr False"
| "consumersLeader ourID ((name, ca) # cas) =
     (case ca_Group ca of
        None \<Rightarrow> Inl NilDereference
      | Some rg \<Rightarrow>
          (case leaderAmong ourID rg (rg_Peers rg) of
             Inl p \<Rightarrow> Inl p
           | Inr True \<Rightarrow> Inr True
           | Inr False \<Rightarrow> consumersLeader ourID cas))"

definition isConsumerLeader ::
  "jetStreamCluster option \<Rightarrow> string \<Rightarrow> string \<Rightarrow> string \<Rightarrow> panic + bool" where
  "isConsumerLeader cco account stream consumer =
     (case cco of
        None \<Rightarrow> Inr True
      | Some cc \<Rightarrow>
          (case lookupAssignment (streams cc) account stream of
             None \<Rightarrow> Inr False
           | Some sa \<Rightarrow> consumersLeader (ID (meta cc)) (sa_consumers sa)))"

section \<open>Applying assignments and removals\<close>

text \<open>
  \<open>storeAssignment\<close> writes back a stream assignment that the code has changed
  through its pointer: the entry under \<open>(account, stream)\<close> is replaced in place.
\<close>

definition storeAssignment ::
  "assignments \<Rightarrow> string \<Rightarrow> string \<Rightarrow> streamAssignment \<Rightarrow> assignments" where
  "storeAssignment m account stream sa =
     (case map_of m account of
        None \<Rightarrow> m
      | Some as \<Rightarrow> AList.update account (AList.update stream sa as) m)"

definition processStreamAssignment :: "jetStream \<Rightarrow> streamAssignment \<Rightarrow> panic + jetStream" where
  "processStreamAssignment js sa =
     (case (srv js, cluster js) of
        (Some s, Some cc) \<Rightarrow>
          (case sa_Client sa of
             None \<Rightarrow> Inl NilDereference
           | Some ci \<Rightarrow>
               (case LookupAccount s (Account ci) of
                  None \<Rightarrow> Inr js
                | Some acc \<Rightarrow>
                    (case sa_Config sa of
                       None \<Rightarrow> Inl NilDereference
                     | Some cfg \<Rightarrow>
                         let stream = cfg_Name cfg;
                             accStreams = map_of (streams cc) (acc_Name acc)
                         in if lookupAssignment (streams cc) (acc_Name acc) stream \<noteq> None
                            then Inr js
                            else
                              let accStreams' =
                                    AList.update stream sa
                                      (case accStreams of None \<Rightarrow> [] | Some as \<Rightarrow> as);
                                  cc' = cc\<lparr>streams :=
                                          AList.update (acc_Name acc) accStreams' (streams cc)\<rparr>;
                                  js' = js\<lparr>cluster := Some cc'\<rparr>
                              in if isMember (sa_Group sa) (ID (meta cc))
                                 then Inr (processClusterCreateStream js' sa)
                                 else Inr js')))
      | _ \<Rightarrow> Inr js)"

definition processStreamRemoval :: "jetStream \<Rightarrow> streamAssignment \<Rightarrow> panic + jetStream" where
  "processStreamRemoval js sa =
     (case (srv js, cluster js) of
        (Some s, Some cc) \<Rightarrow>
          (case sa_Config sa of
             None \<Rightarrow> Inl NilDereference
           | Some cfg \<Rightarrow>
               (case sa_Client sa of
                  None \<Rightarrow> Inl NilDereference
                | Some ci \<Rightarrow>
                    andThen (isStreamLeader (Some cc) (Account ci) (cfg_Name cfg))
                      (\<lambda>wasLeader.
                         case map_of (streams cc) (Account ci) of
                           None \<Rightarrow> Inr js
                         | Some accStreams \<Rightarrow>
                             (case map_of accStreams (cfg_Name cfg) of
                                None \<Rightarrow> Inr js
                              | Some old \<Rightarrow>
                                  let accStreams' = AList.delete (cfg_Name cfg) accStreams;
                                      streams' =
                                        (if accStreams' = []
                                         then AList.delete (Account ci) (streams cc)
                                         else AList.update (Account ci) accStreams' (streams cc));
                                      js' = js\<lparr>cluster := Some (cc\<lparr>streams := streams'\<rparr>)\<rparr>
                                  in Inr (processClusterDeleteStream js' sa wasLeader)))))
      | _ \<Rightarrow> Inr js)"

definition processConsumerAssignment ::
  "jetStream \<Rightarrow> consumerAssignment \<Rightarrow> panic + jetStream" where
  "processConsumerAssignment js ca =
     (case (srv js, cluster js) of
        (Some s, Some cc) \<Rightarrow>
          (case ca_Client ca of
             None \<Rightarrow> Inl NilDereference
           | Some ci \<Rightarrow>
               (case lookupAssignment (streams cc) (Account ci) (ca_Stream ca) of
                  None \<Rightarrow> Inr js
                | Some sa \<Rightarrow>
                    let sa' = sa\<lparr>sa_consumers :=
                                 AList.update (ca_Name ca) ca (sa_consumers sa)\<rparr>;
                        cc' = cc\<lparr>streams :=
                                 storeAssignment (streams cc) (Account ci) (ca_Stream ca) sa'\<rparr>;
                        js' = js\<lparr>cluster := Some cc'\<rparr>
                    in if isMember (ca_Group ca) (ID (meta cc))
                       then Inr (processClusterCreateConsumer js' ca)
                       else Inr js'))
      | _ \<Rightarrow> Inr js)"

definition processConsumerRemoval ::
  "jetStream \<Rightarrow> consumerAssignment \<Rightarrow> panic + jetStream" where
  "processConsumerRemoval js ca =
     (case (srv js, cluster js) of
        (Some s, Some cc) \<Rightarrow>
          (case ca_Client ca of
             None \<Rightarrow> Inl NilDereference
           | Some ci \<Rightarrow>
               andThen (isConsumerLeader (Some cc) (Account ci) (ca_Stream ca) (ca_Name ca))
                 (\<lambda>wasLeader.
                    let cc' =
                          (case lookupAssignment (streams cc) (Account ci) (ca_Stream ca) of
                             None \<Rightarrow> cc
                           | Some sa \<Rightarrow>
                               cc\<lparr>streams :=
                                    storeAssignment (streams cc) (Account ci) (ca_Stream ca)
                                      (sa\<lparr>sa_consumers :=
                                            AList.delete (ca_Name ca) (sa_consumers sa)\<rparr>)\<rparr>)
                    in Inr (processClusterDeleteConsumer (js\<lparr>cluster := Some cc'\<rparr>) ca
                              wasLeader)))
      | _ \<Rightarrow> Inr js)"

section \<open>Meta snapshots and the apply loop\<close>

text \<open>
  \<open>s2.Decode\<close> and \<open>json.Unmarshal\<close> are library functions; the model takes them as
  parameters, \<open>None\<close> standing for a returned error.
\<close>

record Codec =
  s2Decode :: "bytes \<Rightarrow> bytes option"
  unmarshalSnapshot :: "bytes \<Rightarrow> writeableStreamAssignment list option"
  unmarshalStreamAssignment :: "bytes \<Rightarrow> streamAssignment option"
  unmarshalConsumerAssignment :: "bytes \<Rightarrow> consumerAssignment option"



text \<open>The loop \<open>for _, ca := range wsa.Consumers\<close> that fills \<open>sa.consumers\<close>.\<close>

fun addConsumers ::
  "consumerAssignment option list \<Rightarrow> (string, consumerAssignment) gomap
     \<Rightarrow> panic + (string, consumerAssignment) gomap" where
  "addConsumers [] m = Inr m"
| "addConsumers (None # cas) m = Inl NilDereference"
| "addConsumers (Some ca # cas) m = addConsumers cas (AList.update (ca_Name ca) ca m)"

text \<open>
  The body of the loop \<open>for _, wsa := range wsas\<close> that builds the new map:
  \<open>wsa.Client\<close> is dereferenced first, then the consumers, then \<open>wsa.Config\<close>.
\<close>

definition snapshotEntry :: "assignments \<Rightarrow> writeableStreamAssignment \<Rightarrow> panic + assignments" where
  "snapshotEntry new wsa =
     (case wsa_Client wsa of
        None \<Rightarrow> Inl NilDereference
      | Some ci \<Rightarrow>
          andThen (addConsumers (wsa_Consumers wsa) [])
            (\<lambda>consumers.
               case wsa_Config wsa of
                 None \<Rightarrow> Inl NilDereference
               | Some cfg \<Rightarrow>
                   let as = (case map_of new (Account ci) of None \<Rightarrow> [] | Some m \<Rightarrow> m);
                       sa = \<lparr>sa_Client = wsa_Client wsa, sa_Config = wsa_Config wsa,
                             sa_Group = wsa_Group wsa, sa_Sync = wsa_Sync wsa,
                             sa_Reply = [], sa_consumers = consumers\<rparr>
                   in Inr (AList.update (Account ci) (AList.update (cfg_Name cfg) sa as) new)))"

text \<open>The three walks over the old and the new map.\<close>

definition snapshotDeletes :: "assignments \<Rightarrow> assignments \<Rightarrow> streamAssignment list" where
  "snapshotDeletes old new =
     concat (map (\<lambda>(account, asa).
       concat (map (\<lambda>(sn, sa).
         case lookupAssignment new account sn of None \<Rightarrow> [sa] | Some nsa \<Rightarrow> []) asa)) old)"

definition snapshotChecks :: "assignments \<Rightarrow> assignments \<Rightarrow> streamAssignment list" where
  "snapshotChecks old new =
     concat (map (\<lambda>(account, asa).
       concat (map (\<lambda>(sn, sa).
         case lookupAssignment new account sn of None \<Rightarrow> [] | Some nsa \<Rightarrow> [nsa]) asa)) old)"

definition snapshotAdds :: "assignments \<Rightarrow> assignments \<Rightarrow> streamAssignment list" where
  "snapshotAdds old new =
     concat (map (\<lambda>(account, nasa).
       concat (map (\<lambda>(sn, sa).
         case lookupAssignment old account sn of None \<Rightarrow> [sa] | Some osa \<Rightarrow> []) nasa)) new)"

text \<open>
  The loop over \<open>saChk\<close>. Its inner loop ranges over the consumers of the old
  assignment \<open>osa\<close>, and it is the old \<open>ca\<close> that goes to \<open>caDel\<close> or \<open>caAdd\<close>.
\<close>

definition consumersToDelete ::
  "streamAssignment \<Rightarrow> streamAssignment \<Rightarrow> consumerAssignment list" where
  "consumersToDelete sa osa =
     concat (map (\<lambda>(n, ca).
       case map_of (sa_consumers sa) (ca_Name ca) of None \<Rightarrow> [ca] | Some c \<Rightarrow> [])
       (sa_consumers osa))"

definition consumersToAdd ::
  "streamAssignment \<Rightarrow> streamAssignment \<Rightarrow> consumerAssignment list" where
  "consumersToAdd sa osa =
     concat (map (\<lambda>(n, ca).
       case map_of (sa_consumers sa) (ca_Name ca) of None \<Rightarrow> [] | Some c \<Rightarrow> [ca])
       (sa_consumers osa))"

fun checkConsumers ::
  "jetStream \<Rightarrow> streamAssignment list
     \<Rightarrow> consumerAssignment list \<times> consumerAssignment list
     \<Rightarrow> panic + (consumerAssignment list \<times> consumerAssignment list)" where
  "checkConsumers js [] acc = Inr acc"
| "checkConsumers js (sa # sas) (caDel, caAdd) =
     (case sa_Client sa of
        None \<Rightarrow> Inl NilDereference
      | Some ci \<Rightarrow>
          (case sa_Config sa of
             None \<Rightarrow> Inl NilDereference
           | Some cfg \<Rightarrow>
               andThen (streamAssignmentOf js (Account ci) (cfg_Name cfg))
                 (\<lambda>osa.
                    case osa of
                      None \<Rightarrow> checkConsumers js sas (caDel, caAdd)
                    | Some old \<Rightarrow>
                        checkConsumers js sas
                          (caDel @ consumersToDelete sa old, caAdd @ consumersToAdd sa old))))"

text \<open>The body of the loop over \<open>saAdd\<close>.\<close>

definition addStreamAndConsumers :: "jetStream \<Rightarrow> streamAssignment \<Rightarrow> panic + jetStream" where
  "addStreamAndConsumers js sa =
     andThen (processStreamAssignment js sa)
       (forEach processConsumerAssignment (map snd (sa_consumers sa)))"

definition applyMetaSnapshot ::
  "Codec \<Rightarrow> jetStream \<Rightarrow> bytes \<Rightarrow> panic + (jetStream \<times> error option)" where
  "applyMetaSnapshot c js buf =
     (case s2Decode c buf of
        None \<Rightarrow> Inr (js, Some errDecode)
      | Some jse \<Rightarrow>
          (case unmarshalSnapshot c jse of
             None \<Rightarrow> Inr (js, Some errDecode)
           | Some wsas \<Rightarrow>
               andThen (forEach snapshotEntry wsas [])
                 (\<lambda>new.
                    case cluster js of
                      None \<Rightarrow> Inl NilDereference
                    | Some cc \<Rightarrow>
                        let saDel = snapshotDeletes (streams cc) new;
                            saChk = snapshotChecks (streams cc) new;
                            saAdd = snapshotAdds (streams cc) new
                        in andThen (checkConsumers js saChk ([], []))
                             (\<lambda>(caDel, caAdd).
                                andThen (forEach processStreamRemoval saDel js)
                                  (\<lambda>js1.
                                     andThen (forEach addStreamAndConsumers saAdd js1)
                                       (\<lambda>js2.
                                          andThen (forEach processConsumerRemoval caDel js2)
                                            (\<lambda>js3.
                                               andThen
                                                 (forEach processConsumerAssignment caAdd js3)
                                                 (\<lambda>js4. Inr (js4, None)))))))))"








section \<open>Placement\<close>

text \<open>
  \<open>rand.Shuffle(n, swap)\<close> of the Go library runs \<open>i\<close> from \<open>n - 1\<close> down to 1,
  draws \<open>j\<close> in \<open>[0, i]\<close> and calls \<open>swap(i, j)\<close>. The draws are a parameter:
  \<open>rnd i\<close> is the number drawn at step \<open>i\<close>, reduced to the range. The swap is
  the closure of \<open>selectPeerGroup\<close>.
\<close>

definition swapAt :: "nat \<Rightarrow> nat \<Rightarrow> 'a list \<Rightarrow> 'a list" where
  "swapAt i j xs = xs[i := xs ! j, j := xs ! i]"

fun shuffleFrom :: "(nat \<Rightarrow> nat) \<Rightarrow> nat \<Rightarrow> 'a list \<Rightarrow> 'a list" where
  "shuffleFrom rnd 0 xs = xs"
| "shuffleFrom rnd (Suc i) xs =
     shuffleFrom rnd i (swapAt (Suc i) (rnd (Suc i) mod (Suc i + 1)) xs)"

definition Shuffle :: "(nat \<Rightarrow> nat) \<Rightarrow> 'a list \<Rightarrow> 'a list" where
  "Shuffle rnd xs = shuffleFrom rnd (length xs - 1) xs"

text \<open>
  \<open>selectPeerGroup\<close>: \<open>r\<close> is a Go \<open>int\<close>; the slice expression \<open>nodes[:r]\<close>
  panics for a negative \<open>r\<close>. The \<open>nil\<close> result is the empty list.
\<close>

definition selectPeerGroup ::
  "(nat \<Rightarrow> nat) \<Rightarrow> jetStreamCluster \<Rightarrow> int \<Rightarrow> panic + string list" where
  "selectPeerGroup rnd cc r =
     (let peers = Peers (meta cc);
          s = cc_s cc;
          ourID = ID (meta cc);
          nodes = map peer_ID
                    (filter (\<lambda>p. peer_ID p = ourID \<or> getRouteByHash s (peer_ID p)) peers)
      in if int (length nodes) < r then Inr []
         else if r < 0 then Inl SliceOutOfRange
         else Inr (take (nat r) (Shuffle rnd nodes)))"

section \<open>Publishing on the stream leader\<close>

text \<open>
  Of the stream, \<open>processClusteredInboundMsg\<close> reads \<open>config.NoAck\<close>,
  \<open>config.Name\<close>, \<open>isLeader()\<close>, \<open>lseq\<close>, \<open>nlseq\<close>, the send queue and the
  node, of which it calls \<open>Propose\<close>: the field \<open>st_node\<close> is the answer of
  \<open>Propose\<close> to an entry (\<open>None\<close> for no error), or \<open>None\<close> for a \<open>nil\<close> node.
  The send on the channel \<open>sendq\<close> appends to a list. The response that
  \<open>json.Marshal\<close> turns into bytes is kept as a record; it is never empty.
\<close>

record ApiError =
  Code :: int
  Description :: string

record JSPubAckResponse =
  pa_Stream :: string
  pa_Error :: "ApiError option"

record jsPubMsg =
  pm_subj :: bytes
  pm_msg :: JSPubAckResponse

record Stream =
  st_NoAck :: bool
  st_Name :: string
  st_isLeader :: bool
  st_lseq :: uint64
  st_nlseq :: uint64
  sendq :: "jsPubMsg list"
  st_node :: "(bytes \<Rightarrow> error option) option"

fun errorText :: "error \<Rightarrow> string" where
  "errorText (errPropose text) = text"
| "errorText errBadStreamMsg = ''jetstream cluster bad replicated stream msg''"
| "errorText errDecode = ''decode error''"
| "errorText ErrStoreEOF = ''stream EOF''"
| "errorText ErrStoreMsgNotFound = ''no message found''"

text \<open>
  The result holds the stream after the call, the entry that was handed to
  \<open>Propose\<close>, and the error returned. \<open>now\<close> is \<open>time.Now().UnixNano()\<close>.
\<close>

definition processClusteredInboundMsg ::
  "Stream \<Rightarrow> int64 \<Rightarrow> bytes \<Rightarrow> bytes \<Rightarrow> bytes \<Rightarrow> bytes
     \<Rightarrow> panic + (Stream \<times> bytes \<times> error option)" where
  "processClusteredInboundMsg mset now subject reply hdr msg =
     (let canRespond = (\<not> st_NoAck mset \<and> length reply > 0 \<and> st_isLeader mset);
          mset1 = (if st_nlseq mset < st_lseq mset
                   then mset\<lparr>st_nlseq := st_lseq mset\<rparr> else mset);
          entry = encodeStreamMsg subject reply hdr msg (st_nlseq mset1) now
      in case st_node mset1 of
           None \<Rightarrow> Inl NilDereference
         | Some propose \<Rightarrow>
             (case propose entry of
                Some err \<Rightarrow>
                  let response =
                        (if canRespond
                         then Some \<lparr>pa_Stream = st_Name mset1,
                                    pa_Error = Some \<lparr>Code = 503, Description = errorText err\<rparr>\<rparr>
                         else None);
                      mset2 =
                        (case response of
                           None \<Rightarrow> mset1
                         | Some resp \<Rightarrow>
                             mset1\<lparr>sendq := sendq mset1 @ [\<lparr>pm_subj = reply, pm_msg = resp\<rparr>]\<rparr>)
                  in Inr (mset2, entry, Some err)
              | None \<Rightarrow> Inr (mset1\<lparr>st_nlseq := st_nlseq mset1 + 1\<rparr>, entry, None)))"

section \<open>Installing a stream snapshot\<close>

record StreamState =
  FirstSeq :: uint64
  LastSeq :: uint64
  Deleted :: "uint64 list"

record streamSyncRequest =
  sr_FirstSeq :: uint64
  sr_LastSeq :: uint64

text \<open>
  The message store is the interface \<open>StreamStore\<close>, whose implementations are not
  in the source tree. A store is a state of some type \<open>'st\<close> with the methods this
  file calls. \<open>Compact\<close> and \<open>RemoveMsg\<close> also return a count or a flag and an
  error, which the callers drop; \<open>LoadMsg\<close> returns subject, header, message and
  timestamp together with its error.
\<close>

record 'st StreamStore =
  State :: "'st \<Rightarrow> StreamState"
  Compact :: "'st \<Rightarrow> uint64 \<Rightarrow> 'st"
  RemoveMsg :: "'st \<Rightarrow> uint64 \<Rightarrow> 'st"
  LoadMsg :: "'st \<Rightarrow> uint64 \<Rightarrow> (bytes \<times> bytes \<times> bytes \<times> int64) \<times> error option"

definition calculateSyncRequest :: "StreamState \<Rightarrow> StreamState \<Rightarrow> streamSyncRequest option" where
  "calculateSyncRequest state snap =
     (if LastSeq state \<ge> LastSeq snap then None
      else Some \<lparr>sr_FirstSeq = LastSeq state + 1, sr_LastSeq = LastSeq snap\<rparr>)"

text \<open>The loop \<open>for _, dseq := range snap.Deleted\<close>, with \<open>state\<close> read before it.\<close>

fun removeDeleted :: "'st StreamStore \<Rightarrow> StreamState \<Rightarrow> uint64 list \<Rightarrow> 'st \<Rightarrow> 'st" where
  "removeDeleted store state [] st = st"
| "removeDeleted store state (dseq # ds) st =
     removeDeleted store state ds
       (if dseq \<le> LastSeq state then RemoveMsg store st dseq else st)"

definition processSnapshotDeletes :: "'st StreamStore \<Rightarrow> StreamState \<Rightarrow> 'st \<Rightarrow> 'st" where
  "processSnapshotDeletes store snap st =
     (let state = State store st
      in if FirstSeq snap > FirstSeq state
         then (let st1 = Compact store st (FirstSeq snap);
                   state1 = State store st1
               in removeDeleted store state1 (Deleted snap) st1)
         else removeDeleted store state (Deleted snap) st)"

text \<open>
  \<open>processSnapshot\<close>: the result is the store after the deletes and the sync request
  that is sent to the sync subject, if any. \<open>unmarshal\<close> is \<open>json.Unmarshal\<close>. The
  subscription for the replies and the send itself are not modelled.
\<close>

definition processSnapshot ::
  "'st StreamStore \<Rightarrow> (bytes \<Rightarrow> StreamState option) \<Rightarrow> 'st \<Rightarrow> bytes
     \<Rightarrow> 'st \<times> streamSyncRequest option" where
  "processSnapshot store unmarshal st buf =
     (case unmarshal buf of
        None \<Rightarrow> (st, None)
      | Some snap \<Rightarrow>
          let st1 = processSnapshotDeletes store snap st;
              state = State store st1
          in (st1, calculateSyncRequest state snap))"

text \<open>
  Modelled from the spec: the log store, a collaborator that the spec describes as an
  append-only message store with sequence numbers and tombstones. This memory store keeps
  the first and the last sequence and the messages present; compaction drops what lies
  below the new first sequence, removal of a message leaves the two bounds alone.
\<close>

record memStore =
  ms_first :: uint64
  ms_last :: uint64
  ms_msgs :: "(uint64 \<times> (bytes \<times> bytes \<times> bytes \<times> int64)) list"

definition memStoreOps :: "memStore StreamStore" where
  "memStoreOps =
     \<lparr>State = (\<lambda>st. \<lparr>FirstSeq = ms_first st, LastSeq = ms_last st, Deleted = []\<rparr>),
      Compact = (\<lambda>st n. st\<lparr>ms_first := n, ms_msgs := filter (\<lambda>(k, m). n \<le> k) (ms_msgs st)\<rparr>),
      RemoveMsg = (\<lambda>st d. st\<lparr>ms_msgs := AList.delete d (ms_msgs st)\<rparr>),
      LoadMsg = (\<lambda>st n. case map_of (ms_msgs st) n of
                           None \<Rightarrow> (([], [], [], 0), Some ErrStoreMsgNotFound)
                         | Some m \<Rightarrow> (m, None))\<rparr>"

section \<open>The catch-up sender\<close>

text \<open>
  \<open>runCatchup\<close> is a goroutine: a \<open>select\<close> loop over the quit channels, a
  ticker and the channel \<open>nextBatchC\<close>, next to a subscription callback that
  handles the acks. The model is a state machine over the events that move it. Its
  state holds the variables \<open>seq\<close>, \<open>last\<close> and \<open>out\<close>, whether \<open>nextBatchC\<close>
  holds its token, whether control is inside \<open>sendNextBatch\<close>, and how the goroutine
  returned, if it did. \<open>out\<close> is an \<open>int64\<close>: a 64-bit word that
  \<open>atomic.AddInt64\<close> adds to with wrap-around and that the comparison with
  \<open>maxOut\<close> reads as a signed number, with \<open>sint\<close>. The field \<open>cu_sent\<close>, which
  the code does not have, lists the messages handed to \<open>sendInternalMsgLocked\<close>, each
  with the value of \<open>out\<close> that the loop condition read before it.
\<close>

definition maxOut :: int64 where
  "maxOut = 48 * 1024 * 1024"

datatype stopped = Finished | Stalled | Quit

record catchup =
  cu_seq :: uint64
  cu_last :: uint64
  cu_out :: int64
  cu_nextBatch :: bool
  cu_sending :: bool
  cu_sent :: "(bytes \<times> int64) list"
  cu_stopped :: "stopped option"

text \<open>
  The events: \<open>NextBatch\<close> is the case \<open><-nextBatchC\<close> of the \<open>select\<close>;
  \<open>Send\<close> is one iteration of the loop of \<open>sendNextBatch\<close> and \<open>BatchEnd\<close> its
  exit; \<open>AckSize sz\<close> is the \<open>atomic.AddInt64(&out, -sz)\<close> of the ack callback,
  where \<open>sz\<close> is the \<open>int64\<close> that \<open>ackReplySize\<close> read from the subject of the
  ack, and \<open>AckSignal\<close> the completion of its send on \<open>nextBatchC\<close>, which may come
  later, when the token has been taken; \<open>Timeout\<close> is the ticker, after 500 ms
  without a batch; \<open>QuitSignal\<close> is either quit channel. An event that the state
  does not enable leaves it unchanged. The callback is taken to be ready at any time,
  which allows more runs than the code has, and none fewer.
\<close>

datatype event = NextBatch | Send | BatchEnd | AckSize int64 | AckSignal | Timeout | QuitSignal

text \<open>
  The body of the loop of \<open>sendNextBatch\<close> up to the encoding. The two branches
  that look at the error of \<open>LoadMsg\<close> are empty in the source, so whatever was
  returned is framed, with \<open>seq - 1\<close> and an empty reply.
\<close>

definition catchupFrame :: "'st StreamStore \<Rightarrow> 'st \<Rightarrow> uint64 \<Rightarrow> bytes" where
  "catchupFrame store st seq =
     (case LoadMsg store st seq of
        ((subj, hdr, msg, ts), err) \<Rightarrow> encodeStreamMsg subj [] hdr msg (seq - 1) ts)"

text \<open>
  The rest of the body: \<open>atomic.AddInt64(&out, int64(len(em)))\<close>, the send, and
  \<open>seq++\<close>. The length of a Go slice is an \<open>int\<close>, so \<open>int64(len(em))\<close> is the
  length itself; a list of the model can be longer than any slice, which is why the
  bound on \<open>out\<close> is stated for frames of fewer than \<open>2 ^ 62\<close> bytes.
\<close>

definition sendNext :: "'st StreamStore \<Rightarrow> 'st \<Rightarrow> catchup \<Rightarrow> catchup" where
  "sendNext store st c =
     (let em = catchupFrame store st (cu_seq c)
      in c\<lparr>cu_out := cu_out c + of_nat (length em),
            cu_sent := cu_sent c @ [(em, cu_out c)],
            cu_seq := cu_seq c + 1\<rparr>)"

definition step :: "'st StreamStore \<Rightarrow> 'st \<Rightarrow> catchup \<Rightarrow> event \<Rightarrow> catchup" where
  "step store st c ev =
     (if cu_stopped c \<noteq> None then c
      else case ev of
        NextBatch \<Rightarrow>
          if cu_sending c \<or> \<not> cu_nextBatch c then c
          else if cu_seq c \<ge> cu_last c
               then c\<lparr>cu_nextBatch := False, cu_stopped := Some Finished\<rparr>
               else c\<lparr>cu_nextBatch := False, cu_sending := True\<rparr>
      | Send \<Rightarrow>
          if cu_sending c \<and> cu_seq c < cu_last c \<and> sint (cu_out c) \<le> sint maxOut
          then sendNext store st c else c
      | BatchEnd \<Rightarrow>
          if cu_sending c \<and> \<not> (cu_seq c < cu_last c \<and> sint (cu_out c) \<le> sint maxOut)
          then c\<lparr>cu_sending := False\<rparr> else c
      | AckSize sz \<Rightarrow> c\<lparr>cu_out := cu_out c + (- sz)\<rparr>
      | AckSignal \<Rightarrow> c\<lparr>cu_nextBatch := True\<rparr>
      | Timeout \<Rightarrow> if cu_sending c then c else c\<lparr>cu_stopped := Some Stalled\<rparr>
      | QuitSignal \<Rightarrow> if cu_sending c then c else c\<lparr>cu_stopped := Some Quit\<rparr>)"

text \<open>
  The start of \<open>runCatchup\<close>: \<open>out\<close> is 0, \<open>nextBatchC\<close> gets its first token,
  \<open>seq\<close> and \<open>last\<close> come from the request, and the goroutine returns at once when
  the stream has no quit channel. \<open>runCatchup\<close> is the state after the given events.
\<close>

definition startCatchup :: "streamSyncRequest \<Rightarrow> bool \<Rightarrow> catchup" where
  "startCatchup sreq hasQch =
     \<lparr>cu_seq = sr_FirstSeq sreq, cu_last = sr_LastSeq sreq, cu_out = 0,
      cu_nextBatch = True, cu_sending = False, cu_sent = [],
      cu_stopped = (if hasQch then None else Some Quit)\<rparr>"

definition runCatchup ::
  "'st StreamStore \<Rightarrow> 'st \<Rightarrow> streamSyncRequest \<Rightarrow> bool \<Rightarrow> event list \<Rightarrow> catchup" where
  "runCatchup store st sreq hasQch events =
     foldl (step store st) (startCatchup sreq hasQch) events"

text \<open>
  The invariant of the sender, for a request from \<open>first\<close> to \<open>lst\<close>: what has been
  sent are the frames of \<open>first\<close>, \<open>first + 1\<close>, and so on, \<open>seq\<close> is the next
  sequence, the sequences sent lie below \<open>lst\<close>, every send was issued with \<open>out\<close>
  at most \<open>maxOut\<close>, and a goroutine that ended by itself has reached \<open>lst\<close>.
\<close>

definition catchupInv ::
  "'st StreamStore \<Rightarrow> 'st \<Rightarrow> uint64 \<Rightarrow> uint64 \<Rightarrow> catchup \<Rightarrow> bool" where
  "catchupInv store st first lst c \<longleftrightarrow>
     cu_last c = lst
     \<and> map fst (cu_sent c)
         = map (\<lambda>k. catchupFrame store st (first + of_nat k)) [0..<length (cu_sent c)]
     \<and> cu_seq c = first + of_nat (length (cu_sent c))
     \<and> (if first \<le> lst then unat first + length (cu_sent c) \<le> unat lst else cu_sent c = [])
     \<and> (\<forall>p \<in> set (cu_sent c). sint (snd p) \<le> sint maxOut)
     \<and> (cu_stopped c = Some Finished \<longrightarrow> lst \<le> cu_seq c)"

text \<open>
  The acks of a run are within the bytes in flight when every ack that reaches the
  running sender carries a size between 0 and the value that \<open>out\<close> has at that
  moment. This is so when each ack returns the length of one message that was sent and
  not acknowledged before.
\<close>

fun acksInFlight :: "'st StreamStore \<Rightarrow> 'st \<Rightarrow> catchup \<Rightarrow> event list \<Rightarrow> bool" where
  "acksInFlight store st c [] = True"
| "acksInFlight store st c (ev # evs) =
     ((case ev of
         AckSize sz \<Rightarrow> cu_stopped c = None \<longrightarrow> 0 \<le> sint sz \<and> sint sz \<le> sint (cu_out c)
       | _ \<Rightarrow> True)
      \<and> acksInFlight store st (step store st c ev) evs)"

text \<open>
  The length of the last message sent, 0 when none was; and the window of \<open>out\<close>:
  not negative, and above \<open>maxOut\<close> by at most that length.
\<close>

definition lastSent :: "catchup \<Rightarrow> int" where
  "lastSent c = (if cu_sent c = [] then 0 else int (length (fst (last (cu_sent c)))))"

definition outWindow :: "catchup \<Rightarrow> bool" where
  "outWindow c \<longleftrightarrow> 0 \<le> sint (cu_out c) \<and> sint (cu_out c) \<le> sint maxOut + lastSent c"

text \<open>
  Two stores for the examples: one whose first message has 49 MiB, more than
  \<open>maxOut\<close>, and one with two small messages.
\<close>

definition exBigStore :: memStore where
  "exBigStore =
     \<lparr>ms_first = 1, ms_last = 2,
      ms_msgs = [(1, ([102], [], replicate 51380224 0, 0)), (2, ([102], [], [2], 0))]\<rparr>"

definition exSmallStore :: memStore where
  "exSmallStore =
     \<lparr>ms_first = 1, ms_last = 2,
      ms_msgs = [(1, ([102], [], [1], 0)), (2, ([102], [], [2], 0))]\<rparr>"

section \<open>A small cluster for the examples\<close>

text \<open>
  One account, \<open>$G\<close>, known to the server; this server has the identity \<open>n2\<close>
  in the meta group; every stream and consumer lives in a single-peer group on the
  peer \<open>n1\<close>, as in the test \<open>TestJetStreamClusterMetaSnapshotsMultiChange\<close>,
  where the server that installs the snapshot joined after the streams were placed.
\<close>

definition exServer :: Server where
  "exServer =
     \<lparr>LookupAccount = (\<lambda>n. if n = ''$G'' then Some \<lparr>acc_Name = ''$G''\<rparr> else None),
      getRouteByHash = (\<lambda>h. False)\<rparr>"

definition exMeta :: RaftNode where
  "exMeta = \<lparr>ID = ''n2'', Leader = False, Peers = []\<rparr>"

definition exGroup :: "string \<Rightarrow> raftGroup" where
  "exGroup n =
     \<lparr>rg_Name = n, rg_Peers = [''n1''], rg_Storage = FileStorage, rg_Preferred = [],
      rg_node = None\<rparr>"

definition exConsumer :: "string \<Rightarrow> string \<Rightarrow> consumerAssignment" where
  "exConsumer stream n =
     \<lparr>ca_Client = Some \<lparr>Account = ''$G''\<rparr>, ca_Name = n, ca_Stream = stream,
      ca_Config = Some \<lparr>Durable = n\<rparr>, ca_Group = Some (exGroup (''C-'' @ n)),
      ca_Reply = []\<rparr>"

definition exStream :: "string \<Rightarrow> consumerAssignment list \<Rightarrow> streamAssignment" where
  "exStream n cs =
     \<lparr>sa_Client = Some \<lparr>Account = ''$G''\<rparr>,
      sa_Config = Some \<lparr>cfg_Name = n, cfg_Replicas = 1, cfg_Storage = FileStorage\<rparr>,
      sa_Group = Some (exGroup (''S-'' @ n)), sa_Sync = ''sync'', sa_Reply = [],
      sa_consumers = map (\<lambda>c. (ca_Name c, c)) cs\<rparr>"

definition exWritable :: "string \<Rightarrow> consumerAssignment list \<Rightarrow> writeableStreamAssignment" where
  "exWritable n cs =
     \<lparr>wsa_Client = Some \<lparr>Account = ''$G''\<rparr>,
      wsa_Config = Some \<lparr>cfg_Name = n, cfg_Replicas = 1, cfg_Storage = FileStorage\<rparr>,
      wsa_Group = Some (exGroup (''S-'' @ n)), wsa_Sync = ''sync'',
      wsa_Consumers = map Some cs\<rparr>"

definition exJetStream :: "Server \<Rightarrow> assignments \<Rightarrow> jetStream" where
  "exJetStream s m =
     \<lparr>srv = Some s, cluster = Some \<lparr>meta = exMeta, streams = m, cc_s = s\<rparr>, effects = []\<rparr>"

text \<open>
  A codec that decodes the payload \<open>[1]\<close> to the snapshot \<open>w\<close>, to the stream
  assignment of \<open>S1\<close> and to the consumer assignment of \<open>S1C1\<close>, and fails on
  every other payload; the payload \<open>[9]\<close> already fails to decompress.
\<close>

definition exCodec :: "writeableStreamAssignment list \<Rightarrow> Codec" where
  "exCodec w =
     \<lparr>s2Decode = (\<lambda>b. if b = [9] then None else Some b),
      unmarshalSnapshot = (\<lambda>b. if b = [1] then Some w else None),
      unmarshalStreamAssignment = (\<lambda>b. if b = [1] then Some (exStream ''S1'' []) else None),
      unmarshalConsumerAssignment =
        (\<lambda>b. if b = [1] then Some (exConsumer ''S1'' ''S1C1'') else None)\<rparr>"

text \<open>The names of the consumers under every stream of every account.\<close>

definition consumerNames :: "jetStream \<Rightarrow> (string \<times> (string \<times> string list) list) list" where
  "consumerNames js =
     (case cluster js of
        None \<Rightarrow> []
      | Some cc \<Rightarrow>
          map (\<lambda>(a, m). (a, map (\<lambda>(n, sa). (n, map fst (sa_consumers sa))) m)) (streams cc))"

section \<open>Properties of the little-endian helpers\<close>

lemma length_putLE [simp]: "length (putLE n w) = n"
  by (induction n arbitrary: w) auto

lemma getLE_putLE_take: "getLE (putLE n w) = (take_bit (8 * n) w :: 'a::len word)"
proof (induction n arbitrary: w)
  case 0
  show ?case by simp
next
  case (Suc n)
  have "ucast (ucast w :: byte) OR push_bit 8 (take_bit (8 * n) (drop_bit 8 w))
          = take_bit (8 * Suc n) w"
    by (rule bit_eqI) (auto simp add: bit_simps)
  then show ?case by (simp add: Suc)
qed

lemma getLE_putLE: "LENGTH('a::len) \<le> 8 * n \<Longrightarrow> getLE (putLE n w) = (w :: 'a word)"
  by (simp add: getLE_putLE_take take_bit_word_eq_self)

lemma Uint64_PutUint64 [simp]: "Uint64 (PutUint64 v @ r) = v"
  by (simp add: Uint64_def PutUint64_def getLE_putLE)

lemma Uint32_PutUint32 [simp]: "Uint32 (PutUint32 v @ r) = v"
  by (simp add: Uint32_def PutUint32_def getLE_putLE)

lemma Uint16_PutUint16 [simp]: "Uint16 (PutUint16 v @ r) = v"
  by (simp add: Uint16_def PutUint16_def getLE_putLE)

lemma length_PutUint [simp]:
  "length (PutUint64 a) = 8" "length (PutUint32 b) = 4" "length (PutUint16 c) = 2"
  by (simp_all add: PutUint64_def PutUint32_def PutUint16_def)

lemma drop_PutUint [simp]:
  "drop 8 (PutUint64 a @ r) = r" "drop 4 (PutUint32 b @ r) = r" "drop 2 (PutUint16 c @ r) = r"
  by simp_all

lemma unat_len16: "n \<le> 65535 \<Longrightarrow> unat (of_nat n :: uint16) = n"
  by (rule of_nat_inverse) simp_all

lemma unat_len32: "n < 2 ^ 32 \<Longrightarrow> unat (of_nat n :: uint32) = n"
  by (rule of_nat_inverse) simp_all

section \<open>decodeStreamMsg: which buffers are rejected\<close>

lemma if_chain8:
  "(if a then x else if b then x else if c then x else if d then x else if e then x
    else if f then x else if g then x else if h then x else y)
   = (if a \<or> b \<or> c \<or> d \<or> e \<or> f \<or> g \<or> h then x else y)"
  by simp

lemma frame_checks_iff:
  "(n < 26 \<or> n - 18 < sl \<or> n - (18 + sl) < 2 \<or> n - (20 + sl) < rl
      \<or> n - (20 + sl + rl) < 2 \<or> n - (22 + sl + rl) < hl
      \<or> n - (22 + sl + rl + hl) < 4 \<or> n - (26 + sl + rl + hl) < ml)
   \<longleftrightarrow> (n::nat) < 26 + sl + rl + hl + ml"
proof -
  let ?R = "n < 26 + sl + rl + hl + ml"
  have 1: "n < 26 \<Longrightarrow> ?R" by arith
  have 2: "n - 18 < sl \<Longrightarrow> ?R" by arith
  have 3: "n - (18 + sl) < 2 \<Longrightarrow> ?R" by arith
  have 4: "n - (20 + sl) < rl \<Longrightarrow> ?R" by arith
  have 5: "n - (20 + sl + rl) < 2 \<Longrightarrow> ?R" by arith
  have 6: "n - (22 + sl + rl) < hl \<Longrightarrow> ?R" by arith
  have 7: "n - (22 + sl + rl + hl) < 4 \<Longrightarrow> ?R" by arith
  have 8: "n - (26 + sl + rl + hl) < ml \<Longrightarrow> ?R" by arith
  have 9: "?R \<Longrightarrow> \<not> n - (22 + sl + rl + hl) < 4 \<Longrightarrow> n - (26 + sl + rl + hl) < ml"
    by arith
  show ?thesis using 1 2 3 4 5 6 7 8 9 by blast
qed

text \<open>
  The eight checks of \<open>decodeStreamMsg\<close> amount to one comparison: the buffer is
  rejected exactly when it is shorter than the frame it declares, that is 26 bytes of
  fixed-size fields plus the four section lengths read at their offsets.
\<close>

lemma decodeStreamMsg_unfold:
  "decodeStreamMsg buf =
     (let sl = unat (Uint16 (drop 16 buf));
          rl = unat (Uint16 (drop (18 + sl) buf));
          hl = unat (Uint16 (drop (20 + sl + rl) buf));
          ml = unat (Uint32 (drop (22 + sl + rl + hl) buf))
      in if length buf < 26 + sl + rl + hl + ml then Inl errBadStreamMsg
         else Inr (take sl (drop 18 buf), take rl (drop (20 + sl) buf),
                   take hl (drop (22 + sl + rl) buf), take ml (drop (26 + sl + rl + hl) buf),
                   Uint64 buf, Uint64 (drop 8 buf)))"
proof -
  define sl where "sl = unat (Uint16 (drop 16 buf))"
  define rl where "rl = unat (Uint16 (drop (18 + sl) buf))"
  define hl where "hl = unat (Uint16 (drop (20 + sl + rl) buf))"
  define ml where "ml = unat (Uint32 (drop (22 + sl + rl + hl) buf))"
  have b2: "drop 8 (drop 8 buf) = drop 16 buf" by simp
  have b3: "drop 2 (drop 16 buf) = drop 18 buf" by simp
  have b4': "drop sl (drop 18 buf) = drop (18 + sl) buf" by (simp add: add.commute)
  have b4: "drop 2 (drop (18 + sl) buf) = drop (20 + sl) buf" by (simp add: add.commute)
  have b6': "drop rl (drop (20 + sl) buf) = drop (20 + sl + rl) buf" by (simp add: ac_simps)
  have b6: "drop 2 (drop (20 + sl + rl) buf) = drop (22 + sl + rl) buf" by (simp add: ac_simps)
  have b8': "drop hl (drop (22 + sl + rl) buf) = drop (22 + sl + rl + hl) buf"
    by (simp add: ac_simps)
  have b8: "drop 4 (drop (22 + sl + rl + hl) buf) = drop (26 + sl + rl + hl) buf"
    by (simp add: ac_simps)
  have d: "decodeStreamMsg buf =
     (if length buf < 26 then Inl errBadStreamMsg
      else if length (drop 18 buf) < sl then Inl errBadStreamMsg
      else if length (drop (18 + sl) buf) < 2 then Inl errBadStreamMsg
      else if length (drop (20 + sl) buf) < rl then Inl errBadStreamMsg
      else if length (drop (20 + sl + rl) buf) < 2 then Inl errBadStreamMsg
      else if length (drop (22 + sl + rl) buf) < hl then Inl errBadStreamMsg
      else if length (drop (22 + sl + rl + hl) buf) < 4 then Inl errBadStreamMsg
      else if length (drop (26 + sl + rl + hl) buf) < ml then Inl errBadStreamMsg
      else Inr (take sl (drop 18 buf), take rl (drop (20 + sl) buf),
                take hl (drop (22 + sl + rl) buf), take ml (drop (26 + sl + rl + hl) buf),
                Uint64 buf, Uint64 (drop 8 buf)))"
    unfolding decodeStreamMsg_def Let_def
    apply (simp only: b2)
    apply (simp only: b3 sl_def[symmetric])
    apply (simp only: b4')
    apply (simp only: b4 rl_def[symmetric])
    apply (simp only: b6')
    apply (simp only: b6 hl_def[symmetric])
    apply (simp only: b8')
    apply (simp only: b8 ml_def[symmetric])
    done
  show ?thesis
    unfolding Let_def sl_def[symmetric] rl_def[symmetric] hl_def[symmetric] ml_def[symmetric]
    by (simp only: d length_drop if_chain8 frame_checks_iff)
qed

lemma decodeStreamMsg_frame:
  assumes "length subject \<le> 65535" "length reply \<le> 65535" "length hdr \<le> 65535"
    and "length msg < 2 ^ 32"
  shows "decodeStreamMsg (drop 1 (encodeStreamMsg subject reply hdr msg lseq ts))
           = Inr (subject, reply, hdr, msg, lseq, ts)"
  using assms
  by (simp add: decodeStreamMsg_def encodeStreamMsg_def Let_def unat_len16 unat_len32)

text \<open>
  C5 (as amended). \<open>decodeStreamMsg\<close> returns \<open>errBadStreamMsg\<close> exactly when the
  buffer is shorter than the frame it declares: the 26 bytes of the fixed-size fields
  (8 + 8 + 2 + 2 + 2 + 4) plus the declared lengths of subject, reply, hdr and msg, each
  read at its offset. The minimal frame, with all four sections empty, has exactly 26
  bytes and decodes successfully.
\<close>

theorem decodeStreamMsg_error_iff:
  "(decodeStreamMsg buf = Inl errBadStreamMsg \<longleftrightarrow>
      (let sl = unat (Uint16 (drop 16 buf));
           rl = unat (Uint16 (drop (18 + sl) buf));
           hl = unat (Uint16 (drop (20 + sl + rl) buf));
           ml = unat (Uint32 (drop (22 + sl + rl + hl) buf))
       in length buf < 26 + sl + rl + hl + ml))
   \<and> length (drop 1 (encodeStreamMsg [] [] [] [] lseq ts)) = 26
   \<and> decodeStreamMsg (drop 1 (encodeStreamMsg [] [] [] [] lseq ts))
         = Inr ([], [], [], [], lseq, ts)"
proof -
  have "decodeStreamMsg (drop 1 (encodeStreamMsg [] [] [] [] lseq ts))
         = Inr ([], [], [], [], lseq, ts)"
    by (rule decodeStreamMsg_frame) simp_all
  moreover have "length (drop 1 (encodeStreamMsg [] [] [] [] lseq ts)) = 26"
    by (simp add: encodeStreamMsg_def)
  moreover have "decodeStreamMsg buf = Inl errBadStreamMsg \<longleftrightarrow>
      (let sl = unat (Uint16 (drop 16 buf));
           rl = unat (Uint16 (drop (18 + sl) buf));
           hl = unat (Uint16 (drop (20 + sl + rl) buf));
           ml = unat (Uint32 (drop (22 + sl + rl + hl) buf))
       in length buf < 26 + sl + rl + hl + ml)"
    by (subst decodeStreamMsg_unfold) (simp add: Let_def)
  ultimately show ?thesis by blast
qed

text \<open>
  C5 as stated fails: a buffer of 25 zero bytes is not shorter than 25 bytes and the
  three section lengths it declares are zero, yet it is rejected, because the four
  bytes of the msg length do not fit.
\<close>

theorem decodeStreamMsg_25_counterexample:
  "length (replicate 25 (0::byte)) = 25
   \<and> unat (Uint16 (drop 16 (replicate 25 0))) = 0
   \<and> unat (Uint16 (drop 18 (replicate 25 0))) = 0
   \<and> unat (Uint16 (drop 20 (replicate 25 0))) = 0
   \<and> decodeStreamMsg (replicate 25 0) = Inl errBadStreamMsg"
  by (simp add: decodeStreamMsg_def Uint16_def eval_nat_numeral)

text \<open>
  C6. For subject, reply and hdr of at most 65535 bytes and msg shorter than \<open>2^32\<close>
  bytes, decoding what \<open>encodeStreamMsg\<close> produced, after its leading opcode byte,
  returns the same subject, reply, hdr, msg, lseq and ts, and no error.
\<close>

theorem encode_decode_roundtrip:
  assumes "length subject \<le> 65535" "length reply \<le> 65535" "length hdr \<le> 65535"
    and "length msg < 2 ^ 32"
  shows "decodeStreamMsg (drop 1 (encodeStreamMsg subject reply hdr msg lseq ts))
           = Inr (subject, reply, hdr, msg, lseq, ts)"
  using assms by (rule decodeStreamMsg_frame)

theorem encode_decode_roundtrip_witness:
  "length [102, 111, 111 :: byte] \<le> 65535 \<and> length ([] :: bytes) \<le> 65535
   \<and> length [1, 2 :: byte] < 2 ^ 32
   \<and> decodeStreamMsg (drop 1 (encodeStreamMsg [102, 111, 111] [] [] [1, 2] 7 9))
         = Inr ([102, 111, 111], [], [], [1, 2], 7, 9)"
  using encode_decode_roundtrip [of "[102, 111, 111]" "[]" "[]" "[1, 2]" 7 9] by simp

section \<open>isConsumerLeader\<close>

lemma leaderAmong_result:
  "leaderAmong ourID rg ps = Inr b \<Longrightarrow>
     b = (ourID \<in> set ps \<and> (length (rg_Peers rg) = 1 \<or> (\<exists>n. rg_node rg = Some n \<and> Leader n)))"
  by (induction ps) (auto split: if_splits option.splits)

lemma leaderAmong_returns:
  "(ourID \<in> set ps \<Longrightarrow> length (rg_Peers rg) = 1 \<or> rg_node rg \<noteq> None) \<Longrightarrow>
     \<exists>b. leaderAmong ourID rg ps = Inr b"
  by (induction ps) (auto split: if_splits option.splits)

lemma consumersLeader_result:
  "consumersLeader ourID cas = Inr res \<Longrightarrow>
     res = (\<exists>ca \<in> snd ` set cas. \<exists>rg. ca_Group ca = Some rg \<and> ourID \<in> set (rg_Peers rg)
            \<and> (length (rg_Peers rg) = 1 \<or> (\<exists>n. rg_node rg = Some n \<and> Leader n)))"
proof (induction cas)
  case Nil
  then show ?case by auto
next
  case (Cons x cas)
  let ?P = "\<lambda>ca. \<exists>rg. ca_Group ca = Some rg \<and> ourID \<in> set (rg_Peers rg)
            \<and> (length (rg_Peers rg) = 1 \<or> (\<exists>n. rg_node rg = Some n \<and> Leader n))"
  obtain name ca where x: "x = (name, ca)" by (cases x)
  show ?case
  proof (cases "ca_Group ca")
    case None
    with Cons.prems x show ?thesis by simp
  next
    case (Some rg)
    show ?thesis
    proof (cases "leaderAmong ourID rg (rg_Peers rg)")
      case (Inl p)
      with Cons.prems x Some show ?thesis by simp
    next
      case (Inr found)
      note lr = leaderAmong_result[OF Inr]
      show ?thesis
      proof (cases found)
        case True
        with Cons.prems x Some Inr have "res" by simp
        moreover from True lr Some have "?P ca" by simp
        ultimately show ?thesis using x by auto
      next
        case False
        with Cons.prems x Some Inr have "consumersLeader ourID cas = Inr res" by simp
        from Cons.IH[OF this] have r: "res = (\<exists>ca \<in> snd ` set cas. ?P ca)" .
        from False lr Some have "\<not> ?P ca" by simp
        with r show ?thesis using x by auto
      qed
    qed
  qed
qed

lemma consumersLeader_returns:
  "(\<And>ca. ca \<in> snd ` set cas \<Longrightarrow>
      \<exists>rg. ca_Group ca = Some rg \<and>
        (ourID \<in> set (rg_Peers rg) \<longrightarrow> length (rg_Peers rg) = 1 \<or> rg_node rg \<noteq> None)) \<Longrightarrow>
   \<exists>res. consumersLeader ourID cas = Inr res"
proof (induction cas)
  case Nil
  show ?case by (rule exI[of _ False]) simp
next
  case (Cons x cas)
  obtain name ca where x: "x = (name, ca)" by (cases x)
  from Cons.prems[of ca] x obtain rg where rg: "ca_Group ca = Some rg"
    and ok: "ourID \<in> set (rg_Peers rg) \<longrightarrow> length (rg_Peers rg) = 1 \<or> rg_node rg \<noteq> None"
    by auto
  from leaderAmong_returns[of ourID "rg_Peers rg" rg] ok
  obtain found where f: "leaderAmong ourID rg (rg_Peers rg) = Inr found" by blast
  have "\<exists>res. consumersLeader ourID cas = Inr res"
    by (rule Cons.IH) (use Cons.prems in auto)
  then obtain r where r: "consumersLeader ourID cas = Inr r" ..
  show ?case
  proof (cases found)
    case True
    with x rg f show ?thesis by (intro exI[of _ True]) simp
  next
    case False
    with x rg f r show ?thesis by (intro exI[of _ r]) simp
  qed
qed

text \<open>
  C10. \<open>isConsumerLeader\<close> does not depend on its consumer argument. On an existing
  cluster, whenever it returns, it returns true exactly when this server is a peer of
  the group of some consumer of the stream and that group has a single peer or its node
  reports leadership; and it does return when every consumer of the stream has a group
  and, where this server is one of several peers, a node.
\<close>

theorem isConsumerLeader_any_consumer:
  "isConsumerLeader cco account stream c1 = isConsumerLeader cco account stream c2
   \<and> (\<forall>res. isConsumerLeader (Some cc) account stream c1 = Inr res \<longrightarrow>
         res = (\<exists>sa. lookupAssignment (streams cc) account stream = Some sa \<and>
                 (\<exists>ca \<in> snd ` set (sa_consumers sa). \<exists>rg. ca_Group ca = Some rg
                    \<and> ID (meta cc) \<in> set (rg_Peers rg)
                    \<and> (length (rg_Peers rg) = 1 \<or> (\<exists>n. rg_node rg = Some n \<and> Leader n)))))
   \<and> ((\<forall>sa. lookupAssignment (streams cc) account stream = Some sa \<longrightarrow>
          (\<forall>ca \<in> snd ` set (sa_consumers sa). \<exists>rg. ca_Group ca = Some rg
             \<and> (ID (meta cc) \<in> set (rg_Peers rg) \<longrightarrow>
                  length (rg_Peers rg) = 1 \<or> rg_node rg \<noteq> None)))
        \<longrightarrow> (\<exists>res. isConsumerLeader (Some cc) account stream c1 = Inr res))"
proof (intro conjI allI impI)
  show "isConsumerLeader cco account stream c1 = isConsumerLeader cco account stream c2"
    by (simp add: isConsumerLeader_def)
next
  fix res
  assume r: "isConsumerLeader (Some cc) account stream c1 = Inr res"
  show "res = (\<exists>sa. lookupAssignment (streams cc) account stream = Some sa \<and>
                 (\<exists>ca \<in> snd ` set (sa_consumers sa). \<exists>rg. ca_Group ca = Some rg
                    \<and> ID (meta cc) \<in> set (rg_Peers rg)
                    \<and> (length (rg_Peers rg) = 1 \<or> (\<exists>n. rg_node rg = Some n \<and> Leader n))))"
  proof (cases "lookupAssignment (streams cc) account stream")
    case None
    with r show ?thesis by (simp add: isConsumerLeader_def)
  next
    case (Some sa)
    with r have "consumersLeader (ID (meta cc)) (sa_consumers sa) = Inr res"
      by (simp add: isConsumerLeader_def)
    from consumersLeader_result[OF this] Some show ?thesis by simp
  qed
next
  assume wf: "\<forall>sa. lookupAssignment (streams cc) account stream = Some sa \<longrightarrow>
          (\<forall>ca \<in> snd ` set (sa_consumers sa). \<exists>rg. ca_Group ca = Some rg
             \<and> (ID (meta cc) \<in> set (rg_Peers rg) \<longrightarrow>
                  length (rg_Peers rg) = 1 \<or> rg_node rg \<noteq> None))"
  show "\<exists>res. isConsumerLeader (Some cc) account stream c1 = Inr res"
  proof (cases "lookupAssignment (streams cc) account stream")
    case None
    then show ?thesis by (intro exI[of _ False]) (simp add: isConsumerLeader_def)
  next
    case (Some sa)
    have "\<exists>res. consumersLeader (ID (meta cc)) (sa_consumers sa) = Inr res"
      by (rule consumersLeader_returns) (use wf Some in blast)
    with Some show ?thesis by (simp add: isConsumerLeader_def)
  qed
qed


theorem isConsumerLeader_any_consumer_witness:
  "isConsumerLeader
     (Some \<lparr>meta = exMeta\<lparr>ID := ''n1''\<rparr>,
            streams = [(''$G'', [(''S1'', exStream ''S1'' [exConsumer ''S1'' ''S1C1''])])],
            cc_s = exServer\<rparr>) ''$G'' ''S1'' ''S1C1'' = Inr True
   \<and> isConsumerLeader
     (Some \<lparr>meta = exMeta\<lparr>ID := ''n1''\<rparr>,
            streams = [(''$G'', [(''S1'', exStream ''S1'' [exConsumer ''S1'' ''S1C1''])])],
            cc_s = exServer\<rparr>) ''$G'' ''S1'' ''S1C9'' = Inr True"
proof -
  define cc where "cc = \<lparr>meta = exMeta\<lparr>ID := ''n1''\<rparr>,
            streams = [(''$G'', [(''S1'', exStream ''S1'' [exConsumer ''S1'' ''S1C1''])])],
            cc_s = exServer\<rparr>"
  note t = isConsumerLeader_any_consumer
             [of "Some cc" "''$G''" "''S1''" "''S1C1''" "''S1C9''" cc]
  have lk: "lookupAssignment (streams cc) ''$G'' ''S1''
              = Some (exStream ''S1'' [exConsumer ''S1'' ''S1C1''])"
    by (simp add: cc_def lookupAssignment_def)
  have wf: "\<forall>sa. lookupAssignment (streams cc) ''$G'' ''S1'' = Some sa \<longrightarrow>
          (\<forall>ca \<in> snd ` set (sa_consumers sa). \<exists>rg. ca_Group ca = Some rg
             \<and> (ID (meta cc) \<in> set (rg_Peers rg) \<longrightarrow>
                  length (rg_Peers rg) = 1 \<or> rg_node rg \<noteq> None))"
    by (simp add: lk) (simp add: exStream_def exConsumer_def exGroup_def)
  from t wf obtain res where r: "isConsumerLeader (Some cc) ''$G'' ''S1'' ''S1C1'' = Inr res"
    by blast
  have "\<exists>ca \<in> snd ` set (sa_consumers (exStream ''S1'' [exConsumer ''S1'' ''S1C1''])).
          \<exists>rg. ca_Group ca = Some rg \<and> ID (meta cc) \<in> set (rg_Peers rg)
            \<and> (length (rg_Peers rg) = 1 \<or> (\<exists>n. rg_node rg = Some n \<and> Leader n))"
    by (simp add: exStream_def exConsumer_def exGroup_def cc_def exMeta_def)
  with t r lk have "res" by blast
  with t r show ?thesis unfolding cc_def by simp
qed


section \<open>processStreamAssignment\<close>

lemma lookupAssignment_update:
  "lookupAssignment (AList.update a (AList.update n sa as) m) a' n' =
     (if a' = a then (if n' = n then Some sa else map_of as n') else lookupAssignment m a' n')"
  by (simp add: lookupAssignment_def update_conv')

text \<open>
  C9 (as amended). Let the server and the cluster exist, let the assignment carry its
  client and its configuration, and let the account registry return accounts under
  their own name. If an assignment is already present for the account and stream,
  \<open>processStreamAssignment\<close> leaves the whole state unchanged. If none is present, the
  assignment is inserted when the server knows the account, every other entry keeping
  its value, and nothing changes when the account lookup fails.
\<close>

theorem processStreamAssignment_once:
  assumes "srv js = Some s" and "cluster js = Some cc"
    and "sa_Client sa = Some ci" and "sa_Config sa = Some cfg"
    and "\<And>acc. LookupAccount s (Account ci) = Some acc \<Longrightarrow> acc_Name acc = Account ci"
  shows "(lookupAssignment (streams cc) (Account ci) (cfg_Name cfg) \<noteq> None \<longrightarrow>
            processStreamAssignment js sa = Inr js)
       \<and> (lookupAssignment (streams cc) (Account ci) (cfg_Name cfg) = None
            \<and> LookupAccount s (Account ci) = None \<longrightarrow>
            processStreamAssignment js sa = Inr js)
       \<and> (lookupAssignment (streams cc) (Account ci) (cfg_Name cfg) = None
            \<and> LookupAccount s (Account ci) \<noteq> None \<longrightarrow>
            (\<exists>js' cc'. processStreamAssignment js sa = Inr js' \<and> cluster js' = Some cc'
               \<and> lookupAssignment (streams cc') (Account ci) (cfg_Name cfg) = Some sa
               \<and> (\<forall>a n. (a, n) \<noteq> (Account ci, cfg_Name cfg) \<longrightarrow>
                     lookupAssignment (streams cc') a n = lookupAssignment (streams cc) a n)))"
proof (intro conjI impI)
  assume present: "lookupAssignment (streams cc) (Account ci) (cfg_Name cfg) \<noteq> None"
  show "processStreamAssignment js sa = Inr js"
  proof (cases "LookupAccount s (Account ci)")
    case None
    with assms show ?thesis by (simp add: processStreamAssignment_def)
  next
    case (Some acc)
    with assms(5) have "acc_Name acc = Account ci" by simp
    with assms(1-4) Some present show ?thesis
      by (simp add: processStreamAssignment_def Let_def)
  qed
next
  assume "lookupAssignment (streams cc) (Account ci) (cfg_Name cfg) = None
            \<and> LookupAccount s (Account ci) = None"
  with assms(1-4) show "processStreamAssignment js sa = Inr js"
    by (simp add: processStreamAssignment_def)
next
  assume a: "lookupAssignment (streams cc) (Account ci) (cfg_Name cfg) = None
            \<and> LookupAccount s (Account ci) \<noteq> None"
  then obtain acc where acc: "LookupAccount s (Account ci) = Some acc" by auto
  with assms(5) have nm: "acc_Name acc = Account ci" by simp
  define as where "as = (case map_of (streams cc) (Account ci) of None \<Rightarrow> [] | Some m \<Rightarrow> m)"
  define cc' where "cc' = cc\<lparr>streams :=
      AList.update (Account ci) (AList.update (cfg_Name cfg) sa as) (streams cc)\<rparr>"
  define js' where "js' = (if isMember (sa_Group sa) (ID (meta cc))
      then processClusterCreateStream (js\<lparr>cluster := Some cc'\<rparr>) sa
      else js\<lparr>cluster := Some cc'\<rparr>)"
  have r: "processStreamAssignment js sa = Inr js'"
    using assms(1-4) acc nm a
    by (simp add: processStreamAssignment_def Let_def js'_def cc'_def as_def)
  have c: "cluster js' = Some cc'"
    by (simp add: js'_def processClusterCreateStream_def emit_def)
  have l: "lookupAssignment (streams cc') (Account ci) (cfg_Name cfg) = Some sa"
    by (simp add: cc'_def lookupAssignment_update)
  have o: "\<forall>a n. (a, n) \<noteq> (Account ci, cfg_Name cfg) \<longrightarrow>
             lookupAssignment (streams cc') a n = lookupAssignment (streams cc) a n"
  proof (intro allI impI)
    fix a n
    assume ne: "(a, n) \<noteq> (Account ci, cfg_Name cfg)"
    have inner: "map_of as n = lookupAssignment (streams cc) (Account ci) n"
      by (simp add: as_def lookupAssignment_def split: option.splits)
    have "lookupAssignment (streams cc') a n =
            (if a = Account ci then (if n = cfg_Name cfg then Some sa else map_of as n)
             else lookupAssignment (streams cc) a n)"
      by (simp add: cc'_def lookupAssignment_update)
    with ne inner show "lookupAssignment (streams cc') a n = lookupAssignment (streams cc) a n"
      by auto
  qed
  from r c l o show "\<exists>js' cc'. processStreamAssignment js sa = Inr js' \<and> cluster js' = Some cc'
               \<and> lookupAssignment (streams cc') (Account ci) (cfg_Name cfg) = Some sa
               \<and> (\<forall>a n. (a, n) \<noteq> (Account ci, cfg_Name cfg) \<longrightarrow>
                     lookupAssignment (streams cc') a n = lookupAssignment (streams cc) a n)"
    by blast
qed

theorem processStreamAssignment_once_witness:
  "processStreamAssignment
     (exJetStream exServer [(''$G'', [(''S1'', exStream ''S1'' [exConsumer ''S1'' ''S1C1''])])])
     (exStream ''S1'' [])
     = Inr (exJetStream exServer [(''$G'', [(''S1'', exStream ''S1'' [exConsumer ''S1'' ''S1C1''])])])
   \<and> (\<exists>js' cc'. processStreamAssignment (exJetStream exServer []) (exStream ''S1'' []) = Inr js'
         \<and> cluster js' = Some cc'
         \<and> lookupAssignment (streams cc') ''$G'' ''S1'' = Some (exStream ''S1'' []))"
proof -
  define held where
    "held = [(''$G'', [(''S1'', exStream ''S1'' [exConsumer ''S1'' ''S1C1''])])]"
  define ci where "ci = \<lparr>Account = ''$G''\<rparr>"
  define cfg where "cfg = \<lparr>cfg_Name = ''S1'', cfg_Replicas = 1, cfg_Storage = FileStorage\<rparr>"
  have reg: "\<And>acc. LookupAccount exServer (Account ci) = Some acc \<Longrightarrow> acc_Name acc = Account ci"
    by (auto simp add: exServer_def ci_def split: if_splits)
  have cl: "sa_Client (exStream ''S1'' []) = Some ci"
    and cf: "sa_Config (exStream ''S1'' []) = Some cfg"
    by (simp_all add: exStream_def ci_def cfg_def)
  have known: "LookupAccount exServer (Account ci) \<noteq> None"
    by (simp add: exServer_def ci_def)
  have "srv (exJetStream exServer held) = Some exServer"
    and "cluster (exJetStream exServer held)
           = Some \<lparr>meta = exMeta, streams = held, cc_s = exServer\<rparr>"
    by (simp_all add: exJetStream_def)
  note present = processStreamAssignment_once [OF this cl cf reg]
  have "lookupAssignment held (Account ci) (cfg_Name cfg) \<noteq> None"
    by (simp add: held_def lookupAssignment_def ci_def cfg_def)
  with present have first:
    "processStreamAssignment (exJetStream exServer held) (exStream ''S1'' [])
       = Inr (exJetStream exServer held)"
    by simp
  have "srv (exJetStream exServer []) = Some exServer"
    and "cluster (exJetStream exServer [])
           = Some \<lparr>meta = exMeta, streams = [], cc_s = exServer\<rparr>"
    by (simp_all add: exJetStream_def)
  note absent = processStreamAssignment_once [OF this cl cf reg]
  have "lookupAssignment [] (Account ci) (cfg_Name cfg) = None"
    by (simp add: lookupAssignment_def)
  with absent known have
    "\<exists>js' cc'. processStreamAssignment (exJetStream exServer []) (exStream ''S1'' []) = Inr js'
         \<and> cluster js' = Some cc'
         \<and> lookupAssignment (streams cc') (Account ci) (cfg_Name cfg) = Some (exStream ''S1'' [])"
    by simp blast
  then have second:
    "\<exists>js' cc'. processStreamAssignment (exJetStream exServer []) (exStream ''S1'' []) = Inr js'
         \<and> cluster js' = Some cc'
         \<and> lookupAssignment (streams cc') ''$G'' ''S1'' = Some (exStream ''S1'' [])"
    by (simp add: ci_def cfg_def)
  from first second show ?thesis unfolding held_def by simp
qed

text \<open>
  C9 as stated fails in its second half: on a server that does not know the account,
  no assignment is present and none is inserted.
\<close>

theorem processStreamAssignment_unknown_account_counterexample:
  "lookupAssignment [] ''$G'' ''S1'' = None
   \<and> processStreamAssignment (exJetStream (exServer\<lparr>LookupAccount := (\<lambda>n. None)\<rparr>) [])
         (exStream ''S1'' [])
       = Inr (exJetStream (exServer\<lparr>LookupAccount := (\<lambda>n. None)\<rparr>) [])"
  by (simp add: exJetStream_def exServer_def exStream_def processStreamAssignment_def
      lookupAssignment_def)

section \<open>applyMetaEntries\<close>







section \<open>applyMetaSnapshot\<close>

text \<open>
  C1 fails on the code. The local map holds \<open>S1\<close> with the consumer \<open>S1C1\<close> and
  \<open>S2\<close> with \<open>S2C1\<close>; the snapshot holds \<open>S1\<close> with \<open>S1C2\<close> and \<open>S3\<close> with
  \<open>S3C1\<close>. After \<open>applyMetaSnapshot\<close> the stream \<open>S1\<close> has no consumer at
  all: \<open>S1C1\<close> has been removed and \<open>S1C2\<close>, which only the snapshot has, has not
  been added, because the loop over the streams to check ranges over the consumers of
  the old assignment.
\<close>

theorem applyMetaSnapshot_misses_new_consumer:
  "(case applyMetaSnapshot
           (exCodec [exWritable ''S1'' [exConsumer ''S1'' ''S1C2''],
                     exWritable ''S3'' [exConsumer ''S3'' ''S3C1'']])
           (exJetStream exServer
              [(''$G'', [(''S1'', exStream ''S1'' [exConsumer ''S1'' ''S1C1'']),
                         (''S2'', exStream ''S2'' [exConsumer ''S2'' ''S2C1''])])])
           [1] of
      Inl p \<Rightarrow> False
    | Inr (js, err) \<Rightarrow>
        err = None \<and> consumerNames js = [(''$G'', [(''S1'', []), (''S3'', [''S3C1''])])])"
  by code_simp


section \<open>selectPeerGroup\<close>

lemma swapAt_props:
  assumes "i < length xs" "j < length xs"
  shows "length (swapAt i j xs) = length xs" "set (swapAt i j xs) = set xs"
    "distinct (swapAt i j xs) = distinct xs"
  using assms by (simp_all add: swapAt_def)

lemma shuffleFrom_props:
  "i < length xs \<Longrightarrow>
     length (shuffleFrom rnd i xs) = length xs \<and> set (shuffleFrom rnd i xs) = set xs
     \<and> distinct (shuffleFrom rnd i xs) = distinct xs"
proof (induction i arbitrary: xs)
  case 0
  then show ?case by simp
next
  case (Suc i)
  let ?j = "rnd (Suc i) mod (Suc i + 1)"
  have "?j < Suc i + 1" by (rule mod_less_divisor) simp
  with Suc.prems have j: "?j < length xs" by linarith
  note sw = swapAt_props [OF Suc.prems j]
  have "i < length (swapAt (Suc i) ?j xs)" using Suc.prems sw(1) by simp
  from Suc.IH [OF this] sw show ?case by simp
qed

lemma Shuffle_props:
  "length (Shuffle rnd xs) = length xs \<and> set (Shuffle rnd xs) = set xs
     \<and> distinct (Shuffle rnd xs) = distinct xs"
proof (cases xs)
  case Nil
  then show ?thesis by (simp add: Shuffle_def)
next
  case (Cons x ys)
  then have "length xs - 1 < length xs" by simp
  from shuffleFrom_props [OF this] show ?thesis by (simp add: Shuffle_def)
qed

text \<open>
  C8. For \<open>r \<ge> 1\<close> and a meta group whose peers have pairwise distinct IDs,
  \<open>selectPeerGroup\<close> returns, whatever the shuffle draws, either exactly \<open>r\<close>
  pairwise distinct IDs, each the ID of a meta peer that is this server itself or has a
  route, or the empty result when fewer than \<open>r\<close> such peers exist.
\<close>

theorem selectPeerGroup_result:
  assumes "1 \<le> r" and "distinct (map peer_ID (Peers (meta cc)))"
  shows "\<exists>res. selectPeerGroup rnd cc r = Inr res \<and>
           (let reachable = filter (\<lambda>p. peer_ID p = ID (meta cc)
                                       \<or> getRouteByHash (cc_s cc) (peer_ID p)) (Peers (meta cc))
            in if int (length reachable) < r then res = []
               else int (length res) = r \<and> distinct res \<and> set res \<subseteq> peer_ID ` set reachable)"
proof -
  define reachable where "reachable = filter (\<lambda>p. peer_ID p = ID (meta cc)
                                       \<or> getRouteByHash (cc_s cc) (peer_ID p)) (Peers (meta cc))"
  define nodes where "nodes = map peer_ID reachable"
  have d: "distinct nodes"
    unfolding nodes_def reachable_def using assms(2) by (rule distinct_map_filter)
  note sp = Shuffle_props [of rnd nodes]
  show ?thesis
  proof (cases "int (length reachable) < r")
    case True
    then show ?thesis
      unfolding Let_def reachable_def [symmetric]
      by (simp add: selectPeerGroup_def Let_def reachable_def)
  next
    case False
    then have r: "nat r \<le> length nodes" by (simp add: nodes_def)
    have res: "selectPeerGroup rnd cc r = Inr (take (nat r) (Shuffle rnd nodes))"
      using False assms(1)
      by (simp add: selectPeerGroup_def Let_def reachable_def nodes_def)
    have l: "int (length (take (nat r) (Shuffle rnd nodes))) = r"
      using r sp assms(1) by simp
    have di: "distinct (take (nat r) (Shuffle rnd nodes))"
      using sp d by simp
    have su: "set (take (nat r) (Shuffle rnd nodes)) \<subseteq> peer_ID ` set reachable"
      using set_take_subset [of "nat r" "Shuffle rnd nodes"] sp by (simp add: nodes_def)
    from res l di su False show ?thesis
      unfolding Let_def reachable_def [symmetric] by simp
  qed
qed

theorem selectPeerGroup_result_witness:
  "\<exists>res. selectPeerGroup (\<lambda>i. 0)
            \<lparr>meta = \<lparr>ID = ''n2'', Leader = True,
                      Peers = [\<lparr>peer_ID = ''n1''\<rparr>, \<lparr>peer_ID = ''n2''\<rparr>, \<lparr>peer_ID = ''n3''\<rparr>]\<rparr>,
             streams = [],
             cc_s = \<lparr>LookupAccount = (\<lambda>n. None), getRouteByHash = (\<lambda>h. h = ''n3'')\<rparr>\<rparr> 2
          = Inr res
     \<and> int (length res) = 2 \<and> distinct res \<and> set res \<subseteq> {''n2'', ''n3''}"
proof -
  define cc where "cc =
     \<lparr>meta = \<lparr>ID = ''n2'', Leader = True,
               Peers = [\<lparr>peer_ID = ''n1''\<rparr>, \<lparr>peer_ID = ''n2''\<rparr>, \<lparr>peer_ID = ''n3''\<rparr>]\<rparr>,
      streams = [],
      cc_s = \<lparr>LookupAccount = (\<lambda>n. None), getRouteByHash = (\<lambda>h. h = ''n3'')\<rparr>\<rparr>"
  have r: "(1::int) \<le> 2" by simp
  have d: "distinct (map peer_ID (Peers (meta cc)))" by (simp add: cc_def)
  have f: "filter (\<lambda>p. peer_ID p = ID (meta cc) \<or> getRouteByHash (cc_s cc) (peer_ID p))
             (Peers (meta cc)) = [\<lparr>peer_ID = ''n2''\<rparr>, \<lparr>peer_ID = ''n3''\<rparr>]"
    by (simp add: cc_def)
  from selectPeerGroup_result [OF r d, of "\<lambda>i. 0"]
  have "\<exists>res. selectPeerGroup (\<lambda>i. 0) cc 2 = Inr res
          \<and> int (length res) = 2 \<and> distinct res \<and> set res \<subseteq> {''n2'', ''n3''}"
    unfolding Let_def f by simp
  then show ?thesis unfolding cc_def .
qed

section \<open>processClusteredInboundMsg\<close>

lemma word_le_succ: "(x :: 'a::len word) \<noteq> - 1 \<Longrightarrow> y \<le> x \<Longrightarrow> y \<le> x + 1"
  by (metis inc_less_eq_triv_imp nle_le order.trans)

text \<open>
  C3 (as amended). On a stream with a node, let \<open>snapped\<close> be \<open>lseq\<close> if
  \<open>nlseq < lseq\<close> and \<open>nlseq\<close> otherwise. The entry handed to \<open>Propose\<close> is the
  \<open>STREAM_MSG\<close> frame with sequence \<open>snapped\<close>; \<open>lseq\<close> is not changed; after the
  call \<open>nlseq\<close> is \<open>snapped + 1\<close> exactly when the propose succeeded and \<open>snapped\<close>
  exactly when it failed; on failure a 503 response for the reply subject is queued if
  the stream acks, a reply subject was given and this server leads, and nothing is
  queued otherwise; and \<open>nlseq \<ge> lseq\<close> holds on return unless the increment wrapped
  around at \<open>2^64 - 1\<close>.
\<close>

theorem processClusteredInboundMsg_nlseq:
  assumes "st_node mset = Some propose"
  shows "let snapped = (if st_nlseq mset < st_lseq mset then st_lseq mset else st_nlseq mset);
             entry = encodeStreamMsg subject reply hdr msg snapped now;
             canRespond = (\<not> st_NoAck mset \<and> length reply > 0 \<and> st_isLeader mset)
         in \<exists>mset'. processClusteredInboundMsg mset now subject reply hdr msg
                       = Inr (mset', entry, propose entry)
              \<and> Uint64 (drop 1 entry) = snapped
              \<and> st_lseq mset' = st_lseq mset
              \<and> (st_nlseq mset' = snapped + 1 \<longleftrightarrow> propose entry = None)
              \<and> (st_nlseq mset' = snapped \<longleftrightarrow> propose entry \<noteq> None)
              \<and> sendq mset' =
                  (case propose entry of
                     None \<Rightarrow> sendq mset
                   | Some err \<Rightarrow>
                       if canRespond
                       then sendq mset @
                              [\<lparr>pm_subj = reply,
                                pm_msg = \<lparr>pa_Stream = st_Name mset,
                                          pa_Error = Some \<lparr>Code = 503,
                                                           Description = errorText err\<rparr>\<rparr>\<rparr>]
                       else sendq mset)
              \<and> (propose entry \<noteq> None \<or> snapped \<noteq> - 1 \<longrightarrow> st_lseq mset' \<le> st_nlseq mset')"
proof -
  define snapped where
    "snapped = (if st_nlseq mset < st_lseq mset then st_lseq mset else st_nlseq mset)"
  define entry where "entry = encodeStreamMsg subject reply hdr msg snapped now"
  define mset1 where
    "mset1 = (if st_nlseq mset < st_lseq mset then mset\<lparr>st_nlseq := st_lseq mset\<rparr> else mset)"
  have m1: "st_nlseq mset1 = snapped" "st_lseq mset1 = st_lseq mset" "sendq mset1 = sendq mset"
    "st_node mset1 = Some propose" "st_Name mset1 = st_Name mset"
    using assms by (simp_all add: mset1_def snapped_def)
  have le: "st_lseq mset \<le> snapped" by (simp add: snapped_def not_less)
  have carried: "Uint64 (drop 1 entry) = snapped"
    by (simp add: entry_def encodeStreamMsg_def)
  show ?thesis
  proof (cases "propose entry")
    case None
    have "processClusteredInboundMsg mset now subject reply hdr msg
            = Inr (mset1\<lparr>st_nlseq := snapped + 1\<rparr>, entry, propose entry)"
      using None m1
      by (simp add: processClusteredInboundMsg_def Let_def mset1_def [symmetric]
            entry_def [symmetric])
    moreover have "snapped \<noteq> - 1 \<longrightarrow> st_lseq mset \<le> snapped + 1"
      using le by (auto intro: word_le_succ)
    ultimately show ?thesis
      unfolding Let_def snapped_def [symmetric] entry_def [symmetric]
      using None m1 carried by simp
  next
    case (Some err)
    define mset2 where "mset2 =
       (if \<not> st_NoAck mset \<and> length reply > 0 \<and> st_isLeader mset
        then mset1\<lparr>sendq := sendq mset1 @
               [\<lparr>pm_subj = reply,
                 pm_msg = \<lparr>pa_Stream = st_Name mset1,
                           pa_Error = Some \<lparr>Code = 503, Description = errorText err\<rparr>\<rparr>\<rparr>]\<rparr>
        else mset1)"
    have "processClusteredInboundMsg mset now subject reply hdr msg
            = Inr (mset2, entry, propose entry)"
      using Some m1
      by (simp add: processClusteredInboundMsg_def Let_def mset1_def [symmetric]
            entry_def [symmetric] mset2_def)
    moreover have "st_nlseq mset2 = snapped" "st_lseq mset2 = st_lseq mset"
      using m1 by (simp_all add: mset2_def)
    moreover have "sendq mset2 =
        (if \<not> st_NoAck mset \<and> length reply > 0 \<and> st_isLeader mset
         then sendq mset @
               [\<lparr>pm_subj = reply,
                 pm_msg = \<lparr>pa_Stream = st_Name mset,
                           pa_Error = Some \<lparr>Code = 503, Description = errorText err\<rparr>\<rparr>\<rparr>]
         else sendq mset)"
      using m1 by (simp add: mset2_def)
    ultimately show ?thesis
      unfolding Let_def snapped_def [symmetric] entry_def [symmetric]
      using Some carried le by simp
  qed
qed

theorem processClusteredInboundMsg_nlseq_witness:
  "\<exists>mset'. processClusteredInboundMsg
              \<lparr>st_NoAck = False, st_Name = ''TEST'', st_isLeader = True, st_lseq = 5,
               st_nlseq = 3, sendq = [], st_node = Some (\<lambda>e. None)\<rparr>
              7 [102] [111] [] [1]
            = Inr (mset', encodeStreamMsg [102] [111] [] [1] 5 7, None)
      \<and> st_nlseq mset' = 6 \<and> st_lseq mset' = 5 \<and> st_lseq mset' \<le> st_nlseq mset'"
proof -
  define mset where "mset =
     \<lparr>st_NoAck = False, st_Name = ''TEST'', st_isLeader = True, st_lseq = 5,
      st_nlseq = 3, sendq = [], st_node = Some (\<lambda>e. None :: error option)\<rparr>"
  have n: "st_node mset = Some (\<lambda>e. None)" by (simp add: mset_def)
  have s: "(if st_nlseq mset < st_lseq mset then st_lseq mset else st_nlseq mset) = 5"
    by (simp add: mset_def)
  have m: "(5 :: uint64) \<noteq> - 1" by simp
  from processClusteredInboundMsg_nlseq [OF n, of "[102]" "[111]" "[]" "[1]" 7]
  have "\<exists>mset'. processClusteredInboundMsg mset 7 [102] [111] [] [1]
            = Inr (mset', encodeStreamMsg [102] [111] [] [1] 5 7, None)
      \<and> st_nlseq mset' = 6 \<and> st_lseq mset' = 5 \<and> st_lseq mset' \<le> st_nlseq mset'"
    unfolding Let_def s using m by (auto simp add: mset_def)
  then show ?thesis unfolding mset_def .
qed

text \<open>
  C3 as stated fails twice. A failed propose of a message without reply subject
  prepares no 503 response: the send queue stays empty. And with \<open>lseq\<close> and
  \<open>nlseq\<close> at \<open>2^64 - 1\<close> a successful propose leaves \<open>nlseq = 0\<close>, below
  \<open>lseq\<close>.
\<close>

theorem processClusteredInboundMsg_counterexample:
  "processClusteredInboundMsg
     \<lparr>st_NoAck = False, st_Name = ''TEST'', st_isLeader = True, st_lseq = 5, st_nlseq = 3,
      sendq = [], st_node = Some (\<lambda>e. Some (errPropose ''proposal queue full''))\<rparr>
     7 [102] [] [] [1]
     = Inr (\<lparr>st_NoAck = False, st_Name = ''TEST'', st_isLeader = True, st_lseq = 5,
             st_nlseq = 5, sendq = [],
             st_node = Some (\<lambda>e. Some (errPropose ''proposal queue full''))\<rparr>,
            encodeStreamMsg [102] [] [] [1] 5 7, Some (errPropose ''proposal queue full''))
   \<and> (case processClusteredInboundMsg
             \<lparr>st_NoAck = False, st_Name = ''TEST'', st_isLeader = True, st_lseq = - 1,
              st_nlseq = - 1, sendq = [], st_node = Some (\<lambda>e. None)\<rparr>
             7 [102] [111] [] [1] of
         Inl p \<Rightarrow> False
       | Inr (mset', entry, err) \<Rightarrow>
           err = None \<and> st_nlseq mset' = 0 \<and> st_lseq mset' = - 1
             \<and> st_nlseq mset' < st_lseq mset')"
  by (simp add: processClusteredInboundMsg_def Let_def word_gt_0)

section \<open>processSnapshot\<close>

lemma removeDeleted_props:
  assumes keepL: "\<And>st d. LastSeq (State store (RemoveMsg store st d)) = LastSeq (State store st)"
    and keepF: "\<And>st d. FirstSeq (State store (RemoveMsg store st d)) = FirstSeq (State store st)"
    and gone: "\<And>st d. snd (LoadMsg store (RemoveMsg store st d) d) \<noteq> None"
    and stay: "\<And>st d x. snd (LoadMsg store st x) \<noteq> None
                 \<Longrightarrow> snd (LoadMsg store (RemoveMsg store st d) x) \<noteq> None"
  shows "LastSeq (State store (removeDeleted store state ds st)) = LastSeq (State store st)
       \<and> FirstSeq (State store (removeDeleted store state ds st)) = FirstSeq (State store st)
       \<and> (\<forall>x. snd (LoadMsg store st x) \<noteq> None
               \<longrightarrow> snd (LoadMsg store (removeDeleted store state ds st) x) \<noteq> None)
       \<and> (\<forall>d \<in> set ds. d \<le> LastSeq state
               \<longrightarrow> snd (LoadMsg store (removeDeleted store state ds st) d) \<noteq> None)"
proof -
  define absent where "absent = (\<lambda>st x. snd (LoadMsg store st x) \<noteq> None)"
  have gone': "\<And>st d. absent (RemoveMsg store st d) d"
    and stay': "\<And>st d x. absent st x \<Longrightarrow> absent (RemoveMsg store st d) x"
    using gone stay by (simp_all add: absent_def)
  have "LastSeq (State store (removeDeleted store state ds st)) = LastSeq (State store st)
       \<and> FirstSeq (State store (removeDeleted store state ds st)) = FirstSeq (State store st)
       \<and> (\<forall>x. absent st x \<longrightarrow> absent (removeDeleted store state ds st) x)
       \<and> (\<forall>d \<in> set ds. d \<le> LastSeq state \<longrightarrow> absent (removeDeleted store state ds st) d)"
  proof (induction ds arbitrary: st)
    case Nil
    show ?case by simp
  next
    case (Cons d ds)
    define st1 where "st1 = (if d \<le> LastSeq state then RemoveMsg store st d else st)"
    have step: "removeDeleted store state (d # ds) st = removeDeleted store state ds st1"
      by (simp add: st1_def)
    note ih = Cons.IH [of st1]
    have 1: "LastSeq (State store st1) = LastSeq (State store st)"
      and 2: "FirstSeq (State store st1) = FirstSeq (State store st)"
      by (simp_all add: st1_def keepL keepF)
    have 3: "\<And>x. absent st x \<Longrightarrow> absent st1 x"
      by (simp add: st1_def stay')
    have 4: "d \<le> LastSeq state \<Longrightarrow> absent st1 d"
      by (simp add: st1_def gone')
    have a: "\<forall>x. absent st x \<longrightarrow> absent (removeDeleted store state ds st1) x"
      using ih 3 by blast
    have b: "\<forall>e \<in> set (d # ds). e \<le> LastSeq state
               \<longrightarrow> absent (removeDeleted store state ds st1) e"
      using ih 4 by auto
    from ih 1 2 a b show ?case unfolding step by simp
  qed
  then show ?thesis by (simp add: absent_def)
qed

text \<open>
  C7. The store is given by its contract: \<open>Compact\<close> sets the first sequence to its
  argument; \<open>RemoveMsg\<close> keeps the first and the last sequence, makes its argument
  unloadable and makes no message loadable. Then, for every local store and every
  snapshot that decodes: the first sequence rises to \<open>snap.FirstSeq\<close> when that is
  greater and stays otherwise; every sequence listed in \<open>snap.Deleted\<close> that is at
  most the local last sequence cannot be loaded afterwards; and a sync request is
  produced exactly when the local last sequence is below \<open>snap.LastSeq\<close>, from the
  local last sequence plus one to \<open>snap.LastSeq\<close>.
\<close>

theorem processSnapshot_follower:
  assumes compact: "\<And>st n. FirstSeq (State store (Compact store st n)) = n"
    and keepL: "\<And>st d. LastSeq (State store (RemoveMsg store st d)) = LastSeq (State store st)"
    and keepF: "\<And>st d. FirstSeq (State store (RemoveMsg store st d)) = FirstSeq (State store st)"
    and gone: "\<And>st d. snd (LoadMsg store (RemoveMsg store st d) d) \<noteq> None"
    and stay: "\<And>st d x. snd (LoadMsg store st x) \<noteq> None
                 \<Longrightarrow> snd (LoadMsg store (RemoveMsg store st d) x) \<noteq> None"
    and dec: "unmarshal buf = Some snap"
  shows "\<exists>st'. processSnapshot store unmarshal st buf
                  = (st', if LastSeq (State store st') < LastSeq snap
                          then Some \<lparr>sr_FirstSeq = LastSeq (State store st') + 1,
                                     sr_LastSeq = LastSeq snap\<rparr>
                          else None)
           \<and> st' = processSnapshotDeletes store snap st
           \<and> FirstSeq (State store st')
               = (if FirstSeq snap > FirstSeq (State store st) then FirstSeq snap
                  else FirstSeq (State store st))
           \<and> (\<forall>d \<in> set (Deleted snap). d \<le> LastSeq (State store st')
                 \<longrightarrow> snd (LoadMsg store st' d) \<noteq> None)"
proof -
  define st' where "st' = processSnapshotDeletes store snap st"
  define st1 where "st1 = (if FirstSeq snap > FirstSeq (State store st)
                           then Compact store st (FirstSeq snap) else st)"
  have eq: "st' = removeDeleted store (State store st1) (Deleted snap) st1"
    by (simp add: st'_def processSnapshotDeletes_def Let_def st1_def)
  note rd = removeDeleted_props [OF keepL keepF gone stay,
      of "State store st1" "Deleted snap" st1, folded eq]
  have f1: "FirstSeq (State store st1)
              = (if FirstSeq snap > FirstSeq (State store st) then FirstSeq snap
                 else FirstSeq (State store st))"
    by (simp add: st1_def compact)
  have ps: "processSnapshot store unmarshal st buf
              = (st', calculateSyncRequest (State store st') snap)"
    using dec by (simp add: processSnapshot_def Let_def st'_def)
  have cs: "calculateSyncRequest (State store st') snap
              = (if LastSeq (State store st') < LastSeq snap
                 then Some \<lparr>sr_FirstSeq = LastSeq (State store st') + 1,
                            sr_LastSeq = LastSeq snap\<rparr>
                 else None)"
    by (auto simp add: calculateSyncRequest_def)
  from rd have l: "LastSeq (State store st') = LastSeq (State store st1)"
    and f: "FirstSeq (State store st') = FirstSeq (State store st1)"
    and g: "\<forall>d \<in> set (Deleted snap). d \<le> LastSeq (State store st1)
               \<longrightarrow> snd (LoadMsg store st' d) \<noteq> None"
    by blast+
  show ?thesis
    using ps cs f f1 g l unfolding st'_def [symmetric] by (intro exI [of _ st']) simp
qed

theorem processSnapshot_follower_witness:
  "\<exists>st'. processSnapshot memStoreOps
            (\<lambda>b. Some \<lparr>FirstSeq = 2, LastSeq = 6, Deleted = [3]\<rparr>)
            \<lparr>ms_first = 1, ms_last = 4,
             ms_msgs = [(1, ([102], [], [1], 0)), (2, ([102], [], [2], 0)),
                        (3, ([102], [], [3], 0)), (4, ([102], [], [4], 0))]\<rparr> []
          = (st', Some \<lparr>sr_FirstSeq = 5, sr_LastSeq = 6\<rparr>)
     \<and> FirstSeq (State memStoreOps st') = 2
     \<and> snd (LoadMsg memStoreOps st' 3) \<noteq> None"
proof -
  define snap where "snap = \<lparr>FirstSeq = 2, LastSeq = 6, Deleted = [3 :: uint64]\<rparr>"
  define st where "st =
     \<lparr>ms_first = 1, ms_last = 4,
      ms_msgs = [(1, ([102], [], [1], 0)), (2, ([102], [], [2], 0)),
                 (3, ([102], [], [3], 0)), (4 :: uint64, ([102 :: byte], [] :: bytes, [4 :: byte], 0 :: int64))]\<rparr>"
  have compact: "\<And>st n. FirstSeq (State memStoreOps (Compact memStoreOps st n)) = n"
    by (simp add: memStoreOps_def)
  have keepL: "\<And>st d. LastSeq (State memStoreOps (RemoveMsg memStoreOps st d))
                 = LastSeq (State memStoreOps st)"
    by (simp add: memStoreOps_def)
  have keepF: "\<And>st d. FirstSeq (State memStoreOps (RemoveMsg memStoreOps st d))
                 = FirstSeq (State memStoreOps st)"
    by (simp add: memStoreOps_def)
  have gone: "\<And>st d. snd (LoadMsg memStoreOps (RemoveMsg memStoreOps st d) d) \<noteq> None"
    by (simp add: memStoreOps_def delete_conv)
  have stay: "\<And>st d x. snd (LoadMsg memStoreOps st x) \<noteq> None
                 \<Longrightarrow> snd (LoadMsg memStoreOps (RemoveMsg memStoreOps st d) x) \<noteq> None"
    by (auto simp add: memStoreOps_def delete_conv split: option.splits)
  have dec: "(\<lambda>b :: bytes. Some snap) [] = Some snap" by simp
  from processSnapshot_follower
         [of memStoreOps "\<lambda>b. Some snap" "[]" snap st, OF compact keepL keepF gone stay dec]
  obtain st' where
    r: "processSnapshot memStoreOps (\<lambda>b. Some snap) st []
          = (st', if LastSeq (State memStoreOps st') < LastSeq snap
                  then Some \<lparr>sr_FirstSeq = LastSeq (State memStoreOps st') + 1,
                             sr_LastSeq = LastSeq snap\<rparr>
                  else None)"
    and e: "st' = processSnapshotDeletes memStoreOps snap st"
    and f: "FirstSeq (State memStoreOps st')
              = (if FirstSeq snap > FirstSeq (State memStoreOps st) then FirstSeq snap
                 else FirstSeq (State memStoreOps st))"
    and g: "\<forall>d \<in> set (Deleted snap). d \<le> LastSeq (State memStoreOps st')
              \<longrightarrow> snd (LoadMsg memStoreOps st' d) \<noteq> None"
    by blast
  have l: "LastSeq (State memStoreOps st') = 4"
    unfolding e by (simp add: processSnapshotDeletes_def memStoreOps_def st_def snap_def)
  have f': "FirstSeq (State memStoreOps st') = 2"
    using f by (simp add: memStoreOps_def st_def snap_def)
  have g': "snd (LoadMsg memStoreOps st' 3) \<noteq> None"
    using g l by (simp add: snap_def)
  have r': "processSnapshot memStoreOps (\<lambda>b. Some snap) st []
              = (st', Some \<lparr>sr_FirstSeq = 5, sr_LastSeq = 6\<rparr>)"
    using r l by (simp add: snap_def)
  from r' f' g' show ?thesis unfolding snap_def st_def by blast
qed


section \<open>runCatchup\<close>

lemma unat_first_plus:
  assumes "unat (first :: uint64) + n \<le> unat (lst :: uint64)"
  shows "unat (first + of_nat n) = unat first + n"
proof -
  have "unat lst < 2 ^ 64" using unsigned_less [of lst, where 'a = nat] by simp
  with assms have "unat first + n < 2 ^ 64" by linarith
  then show ?thesis by (simp add: unat_word_ariths unat_of_nat take_bit_nat_eq_self)
qed

lemma sint_of_nat_len:
  assumes "n < 2 ^ 62"
  shows "sint (of_nat n :: int64) = int n"
proof -
  have "int n < 2 ^ 62" using assms by (metis of_nat_less_iff of_nat_numeral of_nat_power)
  then have "int n < 2 ^ 63" by simp
  moreover have "- (2 ^ 63) \<le> int n" by simp
  ultimately have "signed_take_bit 63 (int n) = int n"
    by (rule signed_take_bit_int_eq_self [rotated])
  moreover have "sint (word_of_int (int n) :: int64) = signed_take_bit (LENGTH(64) - 1) (int n)"
    by (rule sint_sbintrunc')
  ultimately show ?thesis by simp
qed

lemma sint_maxOut: "sint maxOut = 50331648"
  by (simp add: maxOut_def)

lemma sint_out_add:
  assumes "0 \<le> sint (out :: int64)" and "sint out \<le> sint maxOut" and "n < 2 ^ 62"
  shows "sint (out + of_nat n) = sint out + int n"
proof -
  have n: "int n < 2 ^ 62" using assms(3) by (metis of_nat_less_iff of_nat_numeral of_nat_power)
  from assms(1,2) n have "- (2 ^ 63) \<le> sint out + int n" and "sint out + int n < 2 ^ 63"
    by (simp_all add: sint_maxOut)
  then have "signed_take_bit 63 (sint out + int n) = sint out + int n"
    by (rule signed_take_bit_int_eq_self)
  then show ?thesis by (simp add: sint_word_add sint_of_nat_len [OF assms(3)])
qed

lemma sint_out_ack:
  assumes "0 \<le> sint (sz :: int64)" and "sint sz \<le> sint (out :: int64)"
  shows "sint (out + (- sz)) = sint out - sint sz"
proof -
  have "sint out < 2 ^ 63" using sint_lt [of out] by simp
  with assms have "- (2 ^ 63) \<le> sint out - sint sz" and "sint out - sint sz < 2 ^ 63"
    by simp_all
  then have "signed_take_bit 63 (sint out - sint sz) = sint out - sint sz"
    by (rule signed_take_bit_int_eq_self)
  then show ?thesis by (simp add: sint_word_diff)
qed

lemma catchupInv_step:
  assumes "catchupInv store st first lst c"
  shows "catchupInv store st first lst (step store st c ev)"
proof (cases "cu_stopped c \<noteq> None")
  case True
  with assms show ?thesis by (simp add: step_def)
next
  case running: False
  show ?thesis
  proof (cases ev)
    case NextBatch
    with assms running show ?thesis by (auto simp add: step_def catchupInv_def)
  next
    case Send
    show ?thesis
    proof (cases "cu_sending c \<and> cu_seq c < cu_last c \<and> sint (cu_out c) \<le> sint maxOut")
      case False
      with assms running Send show ?thesis by (auto simp add: step_def)
    next
      case True
      let ?n = "length (cu_sent c)"
      from assms have l: "cu_last c = lst" and sq: "cu_seq c = first + of_nat ?n"
        and fr: "map fst (cu_sent c)
                   = map (\<lambda>k. catchupFrame store st (first + of_nat k)) [0..<?n]"
        and bd: "if first \<le> lst then unat first + ?n \<le> unat lst else cu_sent c = []"
        and fl: "\<forall>p \<in> set (cu_sent c). sint (snd p) \<le> sint maxOut"
        by (simp_all add: catchupInv_def)
      from True l sq have lt: "first + of_nat ?n < lst" by simp
      have fle: "first \<le> lst"
      proof (rule ccontr)
        assume "\<not> first \<le> lst"
        with bd have "cu_sent c = []" by simp
        with lt have "first < lst" by simp
        with \<open>\<not> first \<le> lst\<close> show False by simp
      qed
      with bd have b: "unat first + ?n \<le> unat lst" by simp
      from unat_first_plus [OF b] lt have "unat first + ?n < unat lst"
        by (simp add: word_less_nat_alt)
      then have b': "unat first + Suc ?n \<le> unat lst" by simp
      have st: "step store st c ev = sendNext store st c"
        using running Send True by (simp add: step_def)
      show ?thesis
        unfolding st
        using l sq fr fle b' fl True running
        by (simp add: catchupInv_def sendNext_def Let_def)
    qed
  next
    case BatchEnd
    with assms running show ?thesis by (auto simp add: step_def catchupInv_def)
  next
    case (AckSize sz)
    with assms running show ?thesis by (auto simp add: step_def catchupInv_def)
  next
    case AckSignal
    with assms running show ?thesis by (auto simp add: step_def catchupInv_def)
  next
    case Timeout
    with assms running show ?thesis by (auto simp add: step_def catchupInv_def)
  next
    case QuitSignal
    with assms running show ?thesis by (auto simp add: step_def catchupInv_def)
  qed
qed

lemma catchupInv_run:
  "catchupInv store st (sr_FirstSeq sreq) (sr_LastSeq sreq)
     (runCatchup store st sreq hasQch events)"
proof (induction events rule: rev_induct)
  case Nil
  show ?case
    by (simp add: runCatchup_def startCatchup_def catchupInv_def word_le_nat_alt)
next
  case (snoc ev events)
  then show ?case by (simp add: runCatchup_def catchupInv_step)
qed

lemma lastSent_out [simp]: "lastSent (c\<lparr>cu_out := x\<rparr>) = lastSent c"
  by (simp add: lastSent_def)

lemma outWindow_step:
  assumes w: "outWindow c"
    and ack: "\<And>sz. ev = AckSize sz \<Longrightarrow> cu_stopped c = None
                \<Longrightarrow> 0 \<le> sint sz \<and> sint sz \<le> sint (cu_out c)"
    and len: "\<And>s. length (catchupFrame store st s) < 2 ^ 62"
  shows "outWindow (step store st c ev)"
proof (cases "cu_stopped c \<noteq> None")
  case True
  with w show ?thesis by (simp add: step_def)
next
  case running: False
  from w have lo: "0 \<le> sint (cu_out c)" and hi: "sint (cu_out c) \<le> sint maxOut + lastSent c"
    by (simp_all add: outWindow_def)
  show ?thesis
  proof (cases ev)
    case Send
    show ?thesis
    proof (cases "cu_sending c \<and> cu_seq c < cu_last c \<and> sint (cu_out c) \<le> sint maxOut")
      case False
      with w running Send show ?thesis by (auto simp add: step_def)
    next
      case True
      have st: "step store st c ev = sendNext store st c"
        using running Send True by (simp add: step_def)
      from True have le: "sint (cu_out c) \<le> sint maxOut" by simp
      have "sint (cu_out c + of_nat (length (catchupFrame store st (cu_seq c))))
              = sint (cu_out c) + int (length (catchupFrame store st (cu_seq c)))"
        by (rule sint_out_add [OF lo le len])
      with lo le show ?thesis
        unfolding st by (simp add: outWindow_def lastSent_def sendNext_def Let_def)
    qed
  next
    case (AckSize sz)
    from ack [OF AckSize] running have sz: "0 \<le> sint sz" "sint sz \<le> sint (cu_out c)"
      by simp_all
    have st: "step store st c ev = c\<lparr>cu_out := cu_out c + (- sz)\<rparr>"
      using running AckSize by (simp add: step_def)
    have "sint (cu_out c + (- sz)) = sint (cu_out c) - sint sz"
      by (rule sint_out_ack [OF sz])
    with sz lo hi show ?thesis
      unfolding st by (simp add: outWindow_def)
  qed (use w running in \<open>auto simp add: step_def outWindow_def lastSent_def\<close>)
qed

lemma outWindow_run:
  assumes "outWindow c" and "acksInFlight store st c events"
    and "\<And>s. length (catchupFrame store st s) < 2 ^ 62"
  shows "outWindow (foldl (step store st) c events)"
  using assms(1,2)
proof (induction events arbitrary: c)
  case Nil
  then show ?case by simp
next
  case (Cons ev events)
  have "outWindow (step store st c ev)"
  proof (rule outWindow_step [OF Cons.prems(1) _ assms(3)])
    fix sz assume "ev = AckSize sz" and "cu_stopped c = None"
    with Cons.prems(2) show "0 \<le> sint sz \<and> sint sz \<le> sint (cu_out c)" by simp
  qed
  moreover from Cons.prems(2) have "acksInFlight store st (step store st c ev) events"
    by simp
  ultimately have "outWindow (foldl (step store st) (step store st c ev) events)"
    by (rule Cons.IH)
  then show ?case by simp
qed

lemma catchupFrame_lseq: "Uint64 (drop 1 (catchupFrame store st s)) = s - 1"
  by (simp add: catchupFrame_def encodeStreamMsg_def split: prod.splits)

lemma catchupFrame_loaded:
  "LoadMsg store st s = ((subj, hdr, msg, ts), None)
     \<Longrightarrow> catchupFrame store st s = encodeStreamMsg subj [] hdr msg (s - 1) ts"
  by (simp add: catchupFrame_def)

text \<open>
  C2 (as amended). After any sequence of events, what the catch-up sender has emitted
  is one frame for each of the sequences \<open>FirstSeq\<close>, \<open>FirstSeq + 1\<close>, and so on,
  in this order and all below \<open>LastSeq\<close>: the frame of the sequence \<open>s\<close> carries
  \<open>lseq = s - 1\<close>, and when the store loads \<open>s\<close> without an error it is the
  \<open>STREAM_MSG\<close> encoding of the loaded subject, headers, body and timestamp. The
  frames cover the whole interval \<open>[FirstSeq, LastSeq)\<close> when the sender has ended
  through its check \<open>seq \<ge> last\<close>; they may be a shorter run when it ended on a
  quit signal or after 500 ms without a batch. Every send was issued while \<open>out\<close>,
  read as a signed number, was at most \<open>maxOut\<close>. When the acks are within the bytes
  in flight and no frame has \<open>2 ^ 62\<close> bytes or more, \<open>out\<close> is never negative and
  never exceeds \<open>maxOut\<close> by more than the length of the last message sent.
\<close>

theorem runCatchup_sends_prefix:
  "let c = runCatchup store st sreq hasQch events;
       n = length (cu_sent c);
       first = sr_FirstSeq sreq;
       lst = sr_LastSeq sreq
   in (\<forall>k<n. Uint64 (drop 1 (fst (cu_sent c ! k))) = first + of_nat k - 1)
      \<and> (\<forall>k<n. \<forall>subj hdr msg ts.
            LoadMsg store st (first + of_nat k) = ((subj, hdr, msg, ts), None) \<longrightarrow>
            fst (cu_sent c ! k) = encodeStreamMsg subj [] hdr msg (first + of_nat k - 1) ts)
      \<and> (\<forall>k<n. first + of_nat k < lst \<and> unat (first + of_nat k) = unat first + k)
      \<and> (cu_stopped c = Some Finished \<longrightarrow> n = unat lst - unat first)
      \<and> (\<forall>p \<in> set (cu_sent c). sint (snd p) \<le> sint maxOut)
      \<and> (acksInFlight store st (startCatchup sreq hasQch) events
           \<and> (\<forall>s. length (catchupFrame store st s) < 2 ^ 62) \<longrightarrow>
           0 \<le> sint (cu_out c) \<and> sint (cu_out c) \<le> sint maxOut + lastSent c)"
proof -
  define c where "c = runCatchup store st sreq hasQch events"
  define n where "n = length (cu_sent c)"
  define first where "first = sr_FirstSeq sreq"
  define lst where "lst = sr_LastSeq sreq"
  have inv: "catchupInv store st first lst c"
    unfolding c_def first_def lst_def by (rule catchupInv_run)
  then have fr: "map fst (cu_sent c)
                   = map (\<lambda>k. catchupFrame store st (first + of_nat k)) [0..<n]"
    and sq: "cu_seq c = first + of_nat n"
    and bd: "if first \<le> lst then unat first + n \<le> unat lst else cu_sent c = []"
    and fl: "\<forall>p \<in> set (cu_sent c). sint (snd p) \<le> sint maxOut"
    and fin: "cu_stopped c = Some Finished \<longrightarrow> lst \<le> cu_seq c"
    unfolding catchupInv_def n_def by blast+
  have nth: "\<And>k. k < n \<Longrightarrow> fst (cu_sent c ! k) = catchupFrame store st (first + of_nat k)"
  proof -
    fix k assume k: "k < n"
    then have "fst (cu_sent c ! k) = map fst (cu_sent c) ! k" by (simp add: n_def)
    also have "\<dots> = catchupFrame store st (first + of_nat k)"
      unfolding fr using k by simp
    finally show "fst (cu_sent c ! k) = catchupFrame store st (first + of_nat k)" .
  qed
  have carried: "\<forall>k<n. Uint64 (drop 1 (fst (cu_sent c ! k))) = first + of_nat k - 1"
    by (intro allI impI) (simp only: nth catchupFrame_lseq)
  have loaded: "\<forall>k<n. \<forall>subj hdr msg ts.
            LoadMsg store st (first + of_nat k) = ((subj, hdr, msg, ts), None) \<longrightarrow>
            fst (cu_sent c ! k) = encodeStreamMsg subj [] hdr msg (first + of_nat k - 1) ts"
    by (intro allI impI) (simp only: nth catchupFrame_loaded)
  have within: "\<forall>k<n. first + of_nat k < lst \<and> unat (first + of_nat k) = unat first + k"
  proof (intro allI impI)
    fix k assume k: "k < n"
    then have "cu_sent c \<noteq> []" by (auto simp add: n_def)
    with bd have b: "unat first + n \<le> unat lst" by (simp split: if_splits)
    with k have bk: "unat first + k \<le> unat lst" by simp
    have u: "unat (first + of_nat k) = unat first + k" by (rule unat_first_plus [OF bk])
    with b k have "first + of_nat k < lst" by (simp add: word_less_nat_alt)
    with u show "first + of_nat k < lst \<and> unat (first + of_nat k) = unat first + k" by simp
  qed
  have whole: "cu_stopped c = Some Finished \<longrightarrow> n = unat lst - unat first"
  proof
    assume "cu_stopped c = Some Finished"
    with fin sq have ge: "lst \<le> first + of_nat n" by simp
    show "n = unat lst - unat first"
    proof (cases "first \<le> lst")
      case True
      with bd have b: "unat first + n \<le> unat lst" by simp
      from unat_first_plus [OF b] ge have "unat lst \<le> unat first + n"
        by (simp add: word_le_nat_alt)
      with b show ?thesis by simp
    next
      case False
      with bd have "n = 0" by (simp add: n_def)
      moreover from False have "unat lst < unat first" by (simp add: word_le_nat_alt)
      ultimately show ?thesis by simp
    qed
  qed
  have bound: "acksInFlight store st (startCatchup sreq hasQch) events
           \<and> (\<forall>s. length (catchupFrame store st s) < 2 ^ 62) \<longrightarrow>
           0 \<le> sint (cu_out c) \<and> sint (cu_out c) \<le> sint maxOut + lastSent c"
  proof
    assume h: "acksInFlight store st (startCatchup sreq hasQch) events
           \<and> (\<forall>s. length (catchupFrame store st s) < 2 ^ 62)"
    have start: "outWindow (startCatchup sreq hasQch)"
      by (simp add: outWindow_def startCatchup_def lastSent_def sint_maxOut)
    from h have "outWindow (foldl (step store st) (startCatchup sreq hasQch) events)"
      by (intro outWindow_run [OF start]) simp_all
    then show "0 \<le> sint (cu_out c) \<and> sint (cu_out c) \<le> sint maxOut + lastSent c"
      by (simp add: outWindow_def c_def runCatchup_def)
  qed
  from carried loaded within whole fl bound show ?thesis
    unfolding Let_def c_def [symmetric] n_def [symmetric] first_def [symmetric]
      lst_def [symmetric]
    by blast
qed

theorem runCatchup_sends_prefix_witness:
  "cu_stopped (runCatchup memStoreOps exSmallStore \<lparr>sr_FirstSeq = 1, sr_LastSeq = 3\<rparr> True
       [NextBatch, Send, Send, BatchEnd, AckSize 29, AckSignal, NextBatch]) = Some Finished
   \<and> length (cu_sent (runCatchup memStoreOps exSmallStore \<lparr>sr_FirstSeq = 1, sr_LastSeq = 3\<rparr>
       True [NextBatch, Send, Send, BatchEnd, AckSize 29, AckSignal, NextBatch])) = 2
   \<and> fst (cu_sent (runCatchup memStoreOps exSmallStore \<lparr>sr_FirstSeq = 1, sr_LastSeq = 3\<rparr>
       True [NextBatch, Send, Send, BatchEnd, AckSize 29, AckSignal, NextBatch]) ! 0)
       = encodeStreamMsg [102] [] [] [1] 0 0
   \<and> fst (cu_sent (runCatchup memStoreOps exSmallStore \<lparr>sr_FirstSeq = 1, sr_LastSeq = 3\<rparr>
       True [NextBatch, Send, Send, BatchEnd, AckSize 29, AckSignal, NextBatch]) ! 1)
       = encodeStreamMsg [102] [] [] [2] 1 0
   \<and> 0 \<le> sint (cu_out (runCatchup memStoreOps exSmallStore
       \<lparr>sr_FirstSeq = 1, sr_LastSeq = 3\<rparr> True
       [NextBatch, Send, Send, BatchEnd, AckSize 29, AckSignal, NextBatch]))
   \<and> sint (cu_out (runCatchup memStoreOps exSmallStore
       \<lparr>sr_FirstSeq = 1, sr_LastSeq = 3\<rparr> True
       [NextBatch, Send, Send, BatchEnd, AckSize 29, AckSignal, NextBatch]))
       \<le> sint maxOut + 29"
proof -
  define events where
    "events = [NextBatch, Send, Send, BatchEnd, AckSize 29, AckSignal, NextBatch]"
  define sreq where "sreq = \<lparr>sr_FirstSeq = 1, sr_LastSeq = 3\<rparr>"
  define c where "c = runCatchup memStoreOps exSmallStore sreq True events"
  have fin: "cu_stopped c = Some Finished"
    by (simp add: c_def sreq_def events_def runCatchup_def startCatchup_def step_def
          sendNext_def maxOut_def catchupFrame_def memStoreOps_def exSmallStore_def
          encodeStreamMsg_def Let_def word_le_nat_alt word_less_nat_alt)
  have acks: "acksInFlight memStoreOps exSmallStore (startCatchup sreq True) events"
    by (simp add: sreq_def events_def startCatchup_def step_def sendNext_def maxOut_def
          catchupFrame_def memStoreOps_def exSmallStore_def encodeStreamMsg_def Let_def
          word_le_nat_alt word_less_nat_alt)
  have short: "\<forall>s. length (catchupFrame memStoreOps exSmallStore s) < 2 ^ 62"
    by (simp add: catchupFrame_def memStoreOps_def exSmallStore_def encodeStreamMsg_def)
  have l1: "LoadMsg memStoreOps exSmallStore (sr_FirstSeq sreq + of_nat 0)
              = (([102], [], [1], 0), None)"
    and l2: "LoadMsg memStoreOps exSmallStore (sr_FirstSeq sreq + of_nat 1)
              = (([102], [], [2], 0), None)"
    by (simp_all add: sreq_def memStoreOps_def exSmallStore_def)
  note t = runCatchup_sends_prefix [of memStoreOps exSmallStore sreq True events,
       unfolded Let_def, folded c_def]
  from t fin have n: "length (cu_sent c) = 2" by (simp add: sreq_def)
  from t n l1 have f0: "fst (cu_sent c ! 0) = encodeStreamMsg [102] [] [] [1] 0 0"
    by (simp add: sreq_def)
  from t n l2 have f1: "fst (cu_sent c ! 1) = encodeStreamMsg [102] [] [] [2] 1 0"
    by (simp add: sreq_def)
  from t acks short have w: "0 \<le> sint (cu_out c) \<and> sint (cu_out c) \<le> sint maxOut + lastSent c"
    by blast
  have ne: "cu_sent c \<noteq> []" using n by auto
  then have "last (cu_sent c) = cu_sent c ! 1" using n by (simp add: last_conv_nth)
  moreover note ne
  moreover have "length (encodeStreamMsg [102] [] [] [2] 1 0) = 29"
    by (simp add: encodeStreamMsg_def)
  ultimately have "lastSent c = 29" using f1 by (simp add: lastSent_def)
  with w fin n f0 f1 show ?thesis unfolding c_def sreq_def events_def by simp
qed

text \<open>
  C2 as stated fails: the sender does not always emit the whole interval. After a
  first message of 49 MiB the loop stops with \<open>out\<close> above \<open>maxOut\<close>, and when no
  ack arrives the ticker ends the goroutine with only the sequence 1 sent, of the
  requested 1 and 2; and a quit signal before the first batch ends it with nothing sent.
  Nor is \<open>out\<close> always within one message of \<open>maxOut\<close>: it is an \<open>int64\<close>, and
  two acks of \<open>9 * 10 ^ 18\<close> bytes, which were never in flight, wrap it around to
  446744073709551616, far above \<open>maxOut\<close>, before anything is sent.
\<close>

theorem runCatchup_stall_counterexample:
  "cu_stopped (runCatchup memStoreOps exBigStore \<lparr>sr_FirstSeq = 1, sr_LastSeq = 3\<rparr> True
       [NextBatch, Send, BatchEnd, Timeout]) = Some Stalled
   \<and> map fst (cu_sent (runCatchup memStoreOps exBigStore \<lparr>sr_FirstSeq = 1, sr_LastSeq = 3\<rparr>
       True [NextBatch, Send, BatchEnd, Timeout])) = [catchupFrame memStoreOps exBigStore 1]
   \<and> cu_stopped (runCatchup memStoreOps exBigStore \<lparr>sr_FirstSeq = 1, sr_LastSeq = 3\<rparr> True
       [QuitSignal]) = Some Quit
   \<and> cu_sent (runCatchup memStoreOps exBigStore \<lparr>sr_FirstSeq = 1, sr_LastSeq = 3\<rparr> True
       [QuitSignal]) = []
   \<and> sint (cu_out (runCatchup memStoreOps exBigStore \<lparr>sr_FirstSeq = 1, sr_LastSeq = 3\<rparr>
       True [AckSize 9000000000000000000, AckSize 9000000000000000000]))
       = 446744073709551616
   \<and> sint maxOut = 50331648
   \<and> cu_sent (runCatchup memStoreOps exBigStore \<lparr>sr_FirstSeq = 1, sr_LastSeq = 3\<rparr> True
       [AckSize 9000000000000000000, AckSize 9000000000000000000]) = []"
  by (simp add: runCatchup_def startCatchup_def step_def sendNext_def maxOut_def
      catchupFrame_def memStoreOps_def exBigStore_def encodeStreamMsg_def Let_def
      word_le_nat_alt word_less_nat_alt)

end
